theory Spec2Isabelle
  imports Complex_Main
begin

section \<open>Floating-point values\<close>

text \<open>
  A value of the C++ types \<^verbatim>\<open>float\<close> and \<^verbatim>\<open>double\<close> is a real number, one of the two
  infinities, or NaN (the sign of zero is not modelled). The functions \<open>fmul\<close>, \<open>fdiv\<close>
  and \<open>fadd\<close> give the exact result of an operation; the special values follow IEEE 754,
  so that a division by zero and a comparison with NaN behave as they do in the program.
  An operation of the program on floats or doubles is the exact result rounded to the
  format, to nearest with ties to even: see the section on rounding. The path tracer and
  the image-based lighting are written with the rounded operations. The visitor of the
  light tracer is written with the exact ones: what is proved of it is which formula it
  evaluates.
\<close>

datatype fval = Num real | PosInf | NegInf | NaN

fun fneg :: "fval \<Rightarrow> fval" where
  "fneg (Num a) = Num (- a)"
| "fneg PosInf = NegInf"
| "fneg NegInf = PosInf"
| "fneg NaN = NaN"

fun fmul :: "fval \<Rightarrow> fval \<Rightarrow> fval" where
  "fmul (Num a) (Num b) = Num (a * b)"
| "fmul (Num a) PosInf = (if a = 0 then NaN else if 0 < a then PosInf else NegInf)"
| "fmul (Num a) NegInf = (if a = 0 then NaN else if 0 < a then NegInf else PosInf)"
| "fmul PosInf (Num b) = (if b = 0 then NaN else if 0 < b then PosInf else NegInf)"
| "fmul NegInf (Num b) = (if b = 0 then NaN else if 0 < b then NegInf else PosInf)"
| "fmul PosInf PosInf = PosInf"
| "fmul PosInf NegInf = NegInf"
| "fmul NegInf PosInf = NegInf"
| "fmul NegInf NegInf = PosInf"
| "fmul NaN _ = NaN"
| "fmul _ NaN = NaN"

fun fdiv :: "fval \<Rightarrow> fval \<Rightarrow> fval" where
  "fdiv (Num a) (Num b) =
     (if b = 0 then (if a = 0 then NaN else if 0 < a then PosInf else NegInf)
      else Num (a / b))"
| "fdiv (Num a) PosInf = Num 0"
| "fdiv (Num a) NegInf = Num 0"
| "fdiv PosInf (Num b) = (if 0 \<le> b then PosInf else NegInf)"
| "fdiv NegInf (Num b) = (if 0 \<le> b then NegInf else PosInf)"
| "fdiv PosInf PosInf = NaN"
| "fdiv PosInf NegInf = NaN"
| "fdiv NegInf PosInf = NaN"
| "fdiv NegInf NegInf = NaN"
| "fdiv NaN _ = NaN"
| "fdiv _ NaN = NaN"

fun fadd :: "fval \<Rightarrow> fval \<Rightarrow> fval" where
  "fadd (Num a) (Num b) = Num (a + b)"
| "fadd (Num a) PosInf = PosInf"
| "fadd (Num a) NegInf = NegInf"
| "fadd PosInf (Num b) = PosInf"
| "fadd NegInf (Num b) = NegInf"
| "fadd PosInf PosInf = PosInf"
| "fadd PosInf NegInf = NaN"
| "fadd NegInf PosInf = NaN"
| "fadd NegInf NegInf = NegInf"
| "fadd NaN _ = NaN"
| "fadd _ NaN = NaN"

definition fsub :: "fval \<Rightarrow> fval \<Rightarrow> fval" where
  "fsub a b = fadd a (fneg b)"

text \<open>The comparisons \<^verbatim>\<open>==\<close>, \<^verbatim>\<open>!=\<close>, \<^verbatim>\<open><\<close>, \<^verbatim>\<open>>=\<close>: every comparison with NaN is false,
  except \<^verbatim>\<open>!=\<close>, which is the negation of \<^verbatim>\<open>==\<close>.\<close>

fun feq :: "fval \<Rightarrow> fval \<Rightarrow> bool" where
  "feq (Num a) (Num b) = (a = b)"
| "feq PosInf b = (b = PosInf)"
| "feq NegInf b = (b = NegInf)"
| "feq _ _ = False"

definition fneq :: "fval \<Rightarrow> fval \<Rightarrow> bool" where
  "fneq a b = (\<not> feq a b)"

fun fless :: "fval \<Rightarrow> fval \<Rightarrow> bool" where
  "fless (Num a) (Num b) = (a < b)"
| "fless (Num a) PosInf = True"
| "fless NegInf (Num b) = True"
| "fless NegInf PosInf = True"
| "fless _ _ = False"

definition fge :: "fval \<Rightarrow> fval \<Rightarrow> bool" where
  "fge a b = (fless b a \<or> feq a b)"

definition fle :: "fval \<Rightarrow> fval \<Rightarrow> bool" where
  "fle a b = (fless a b \<or> feq a b)"

text \<open>\<^verbatim>\<open>std::min(a, b)\<close> is \<^verbatim>\<open>(b < a) ? b : a\<close>.\<close>

definition std_min :: "fval \<Rightarrow> fval \<Rightarrow> fval" where
  "std_min a b = (if fless b a then b else a)"

fun fabs :: "fval \<Rightarrow> fval" where
  "fabs (Num a) = Num \<bar>a\<bar>"
| "fabs PosInf = PosInf"
| "fabs NegInf = PosInf"
| "fabs NaN = NaN"

fun fsqrt :: "fval \<Rightarrow> fval" where
  "fsqrt (Num a) = (if a < 0 then NaN else Num (sqrt a))"
| "fsqrt PosInf = PosInf"
| "fsqrt NegInf = NaN"
| "fsqrt NaN = NaN"

text \<open>\<^verbatim>\<open>foundation::square\<close>.\<close>

definition square :: "fval \<Rightarrow> fval" where
  "square x = fmul x x"

section \<open>Rounding\<close>

text \<open>
  A binary format has a precision \<open>p\<close> (the number of bits of the significand) and a range
  of exponents. A real \<open>x \<noteq> 0\<close> with \<open>2\<^sup>e \<le> |x| < 2\<^sup>e\<^sup>+\<^sup>1\<close> is rounded to a multiple of
  \<open>2\<^sup>q\<close>, \<open>q = max e emin - (p - 1)\<close> (below \<open>2\<^bsup>emin\<^esup>\<close> the values are subnormal), the
  nearest one, the even one on a tie; a result of magnitude \<open>2\<^bsup>emax+1\<^esup>\<close> or more is an
  infinity.
\<close>

record float_format =
  precision :: nat
  emin :: int
  emax :: int

definition binary32 :: float_format where
  "binary32 = \<lparr>precision = 24, emin = - 126, emax = 127\<rparr>"

definition binary64 :: float_format where
  "binary64 = \<lparr>precision = 53, emin = - 1022, emax = 1023\<rparr>"

definition round_half_even :: "real \<Rightarrow> int" where
  "round_half_even x =
     (let f = \<lfloor>x\<rfloor>; d = x - of_int f
      in if d < 1 / 2 then f else if 1 / 2 < d then f + 1 else if even f then f else f + 1)"

definition quantum_exponent :: "float_format \<Rightarrow> real \<Rightarrow> int" where
  "quantum_exponent F x = max \<lfloor>log 2 \<bar>x\<bar>\<rfloor> (emin F) - (int (precision F) - 1)"

definition nearest :: "float_format \<Rightarrow> real \<Rightarrow> real" where
  "nearest F x =
     (let q = quantum_exponent F x
      in of_int (round_half_even (x / 2 powi q)) * 2 powi q)"

definition round_to_format :: "float_format \<Rightarrow> real \<Rightarrow> fval" where
  "round_to_format F x =
     (if x = 0 then Num 0
      else if 2 powi (emax F + 1) \<le> \<bar>nearest F x\<bar> then (if 0 < x then PosInf else NegInf)
      else Num (nearest F x))"

text \<open>\<^verbatim>\<open>static_cast<float>\<close> and the rounding of the result of a float operation; the same
  for \<^verbatim>\<open>double\<close>. A float converted to \<^verbatim>\<open>double\<close> keeps its value.\<close>

definition float_of :: "fval \<Rightarrow> fval" where
  "float_of v = (case v of Num x \<Rightarrow> round_to_format binary32 x | _ \<Rightarrow> v)"

definition double_of :: "fval \<Rightarrow> fval" where
  "double_of v = (case v of Num x \<Rightarrow> round_to_format binary64 x | _ \<Rightarrow> v)"

definition fmul32 :: "fval \<Rightarrow> fval \<Rightarrow> fval" where
  "fmul32 a b = float_of (fmul a b)"

definition fdiv32 :: "fval \<Rightarrow> fval \<Rightarrow> fval" where
  "fdiv32 a b = float_of (fdiv a b)"

definition fadd32 :: "fval \<Rightarrow> fval \<Rightarrow> fval" where
  "fadd32 a b = float_of (fadd a b)"

definition fmul64 :: "fval \<Rightarrow> fval \<Rightarrow> fval" where
  "fmul64 a b = double_of (fmul a b)"

definition fdiv64 :: "fval \<Rightarrow> fval \<Rightarrow> fval" where
  "fdiv64 a b = double_of (fdiv a b)"

definition fadd64 :: "fval \<Rightarrow> fval \<Rightarrow> fval" where
  "fadd64 a b = double_of (fadd a b)"

text \<open>A \<^verbatim>\<open>size_t\<close> converted to \<^verbatim>\<open>float\<close> and to \<^verbatim>\<open>double\<close>.\<close>

definition size32 :: "nat \<Rightarrow> fval" where
  "size32 n = float_of (Num (real n))"

definition size64 :: "nat \<Rightarrow> fval" where
  "size64 n = double_of (Num (real n))"

text \<open>A value for which the comparison \<^verbatim>\<open>v < 0\<close> is false: a number that is not negative,
  the positive infinity, or NaN.\<close>

fun not_negative :: "fval \<Rightarrow> bool" where
  "not_negative (Num a) = (0 \<le> a)"
| "not_negative PosInf = True"
| "not_negative NegInf = False"
| "not_negative NaN = True"

section \<open>Vectors and spectra\<close>

text \<open>\<^verbatim>\<open>foundation::Vector3d\<close> and \<^verbatim>\<open>Vector2d\<close> with the operations the kernel uses.\<close>

type_synonym vec3 = "fval \<times> fval \<times> fval"
type_synonym vec2 = "fval \<times> fval"

fun vneg :: "vec3 \<Rightarrow> vec3" where
  "vneg (x, y, z) = (fneg x, fneg y, fneg z)"

fun vsub :: "vec3 \<Rightarrow> vec3 \<Rightarrow> vec3" where
  "vsub (a, b, c) (x, y, z) = (fsub a x, fsub b y, fsub c z)"

fun vdiv :: "vec3 \<Rightarrow> fval \<Rightarrow> vec3" where
  "vdiv (x, y, z) s = (fdiv x s, fdiv y s, fdiv z s)"

fun dot :: "vec3 \<Rightarrow> vec3 \<Rightarrow> fval" where
  "dot (a, b, c) (x, y, z) = fadd (fadd (fmul a x) (fmul b y)) (fmul c z)"

definition square_norm :: "vec3 \<Rightarrow> fval" where
  "square_norm v = dot v v"

definition normalize :: "vec3 \<Rightarrow> vec3" where
  "normalize v = vdiv v (fsqrt (square_norm v))"

text \<open>A \<^verbatim>\<open>Spectrum\<close> is a fixed-size array of \<^verbatim>\<open>float\<close>; its operators work component-wise.\<close>

type_synonym spectrum = "fval list"

definition spectrum_mul :: "spectrum \<Rightarrow> spectrum \<Rightarrow> spectrum" where
  "spectrum_mul a b = map2 fmul a b"

definition spectrum_add :: "spectrum \<Rightarrow> spectrum \<Rightarrow> spectrum" where
  "spectrum_add a b = map2 fadd a b"

definition spectrum_scale :: "spectrum \<Rightarrow> fval \<Rightarrow> spectrum" where
  "spectrum_scale a s = map (\<lambda>x. fmul x s) a"

definition spectrum_div :: "spectrum \<Rightarrow> fval \<Rightarrow> spectrum" where
  "spectrum_div a s = map (\<lambda>x. fdiv x s) a"

text \<open>The same operators in float arithmetic.\<close>

definition spectrum32_mul :: "spectrum \<Rightarrow> spectrum \<Rightarrow> spectrum" where
  "spectrum32_mul a b = map2 fmul32 a b"

definition spectrum32_add :: "spectrum \<Rightarrow> spectrum \<Rightarrow> spectrum" where
  "spectrum32_add a b = map2 fadd32 a b"

definition spectrum32_scale :: "spectrum \<Rightarrow> fval \<Rightarrow> spectrum" where
  "spectrum32_scale a s = map (\<lambda>x. fmul32 x s) a"

definition spectrum32_div :: "spectrum \<Rightarrow> fval \<Rightarrow> spectrum" where
  "spectrum32_div a s = map (\<lambda>x. fdiv32 x s) a"

text \<open>Modelled from the spec: \<^verbatim>\<open>foundation::max_value\<close> (the header is not part of the
  sources at hand) is the "max-component" of a spectrum: a running maximum kept with
  \<^verbatim>\<open><\<close>, starting from the first component.\<close>

fun max_value :: "spectrum \<Rightarrow> fval" where
  "max_value [] = NaN"
| "max_value (x # xs) = foldl (\<lambda>value y. if fless value y then y else value) x xs"

text \<open>Modelled from the spec: \<^verbatim>\<open>foundation::pass_rr\<close> (foundation/math/rr.h is not part
  of the sources at hand): with a uniform sample \<open>s\<close> in \<open>[0,1)\<close> the path continues with
  the given probability, that is when \<open>s\<close> is below it.\<close>

definition pass_rr :: "fval \<Rightarrow> fval \<Rightarrow> bool" where
  "pass_rr probability s = fless s probability"

text \<open>Modelled from the spec: \<^verbatim>\<open>foundation::mis_power2\<close> (foundation/math/mis.h is not
  part of the sources at hand) is the power heuristic with exponent 2,
  \<open>q1\<^sup>2 / (q1\<^sup>2 + q2\<^sup>2)\<close>, in double arithmetic.\<close>

definition mis_power2 :: "fval \<Rightarrow> fval \<Rightarrow> fval" where
  "mis_power2 q1 q2 = fdiv64 (fmul64 q1 q1) (fadd64 (fmul64 q1 q1) (fmul64 q2 q2))"

section \<open>The generic path tracer (renderer/kernel/lighting/pathtracer.h)\<close>

text \<open>\<^verbatim>\<open>BSDF::Mode\<close>. The accepted-modes mask (a template argument, tested with \<^verbatim>\<open>&\<close>) is the
  set of the accepted modes.\<close>

datatype bsdf_mode = Diffuse | Glossy | Specular

record shading_ray =
  m_org :: vec3
  m_dir :: vec3
  m_time :: fval

text \<open>A material: whether a surface shader and a BSDF are bound (the getters return
  a null pointer otherwise).\<close>

record material =
  get_surface_shader :: bool
  get_bsdf :: bool

record shading_point =
  get_ray :: shading_ray
  hit :: bool
  get_point :: vec3
  get_material :: "material option"
  get_shading_normal :: vec3
  get_geometric_normal :: vec3

text \<open>
  The collaborators of the walk (surface shader, sampling context, path visitor, BSDF,
  intersector) are outside the kernel. What they answer during one iteration of the loop
  is one record; a scene is the sequence of these answers, indexed by the iteration.
\<close>

record vertex_io =
  alpha_mask :: fval
  alpha_sample :: fval
  visit_vertex_result :: bool
  sampled_incoming :: vec3
  sampled_value :: spectrum
  sampled_prob :: fval
  sampled_mode :: bsdf_mode
  rr_sample :: fval
  next_hit :: shading_point

type_synonym scene = "nat \<Rightarrow> vertex_io"

text \<open>The calls the walk makes to its collaborators, in order.\<close>

datatype event =
    Visit_environment vec3 bsdf_mode spectrum
  | Visit_vertex vec3 bsdf_mode fval spectrum
  | Next_double2 fval
  | Intersector_trace shading_ray
  | Log_warning nat

text \<open>The tracer's members, its template argument \<^verbatim>\<open>ScatteringModesMask\<close> and the
  constant \<^verbatim>\<open>BSDF::DiracDelta\<close>, whose value the sources at hand do not give.\<close>

record path_tracer =
  m_rr_min_path_length :: nat
  m_max_path_length :: nat
  ScatteringModesMask :: "bsdf_mode set"
  DiracDelta :: fval

text \<open>The local variables of \<^verbatim>\<open>trace\<close>, the number of the current iteration and the
  calls made so far.\<close>

record path_state =
  shading_point_ptr :: shading_point
  throughput :: spectrum
  path_length :: nat
  bsdf_mode :: bsdf_mode
  bsdf_prob :: fval
  iteration :: nat
  events :: "event list"

datatype loop_exit = Break path_state | Continue path_state

definition HardPathLengthLimit :: nat where
  "HardPathLengthLimit = 10000"

text \<open>\<^verbatim>\<open>Intersector::trace\<close> fills a shading point for the ray it is given.\<close>

definition intersector_trace :: "shading_ray \<Rightarrow> shading_point \<Rightarrow> shading_point" where
  "intersector_trace ray found = found\<lparr>get_ray := ray\<rparr>"

definition log_event :: "event \<Rightarrow> path_state \<Rightarrow> path_state" where
  "log_event e st = st\<lparr>events := events st @ [e]\<rparr>"

text \<open>Lines 278--310: the two bounce limits, then the scattered ray.\<close>

definition next_bounce :: "path_tracer \<Rightarrow> vertex_io \<Rightarrow> path_state \<Rightarrow> loop_exit" where
  "next_bounce pt io st =
     (if 0 < m_max_path_length pt \<and> m_max_path_length pt \<le> path_length st then Break st
      else if HardPathLengthLimit \<le> path_length st
        then Break (log_event (Log_warning (path_length st)) st)
      else
        let scattered_ray =
              \<lparr>m_org = get_point (shading_point_ptr st),
               m_dir = sampled_incoming io,
               m_time = m_time (get_ray (shading_point_ptr st))\<rparr>
        in Continue ((log_event (Intersector_trace scattered_ray) st)
             \<lparr>path_length := path_length st + 1,
              shading_point_ptr := intersector_trace scattered_ray (next_hit io),
              iteration := Suc (iteration st)\<rparr>))"

text \<open>Lines 253--276: the throughput update and Russian roulette.\<close>

definition update_throughput :: "path_tracer \<Rightarrow> vertex_io \<Rightarrow> path_state \<Rightarrow> loop_exit" where
  "update_throughput pt io st =
     (let bsdf_value =
            (if fneq (sampled_prob io) (DiracDelta pt)
             then spectrum32_div (sampled_value io) (float_of (sampled_prob io))
             else sampled_value io);
          st1 = st\<lparr>throughput := spectrum32_mul (throughput st) bsdf_value\<rparr>
      in
        if 0 < m_rr_min_path_length pt \<and> m_rr_min_path_length pt \<le> path_length st1 then
          let s = rr_sample io;
              st2 = log_event (Next_double2 s) st1;
              scattering_prob = std_min (max_value bsdf_value) (Num 1)
          in
            if \<not> pass_rr scattering_prob s then Break st2
            else next_bounce pt io
                   (st2\<lparr>throughput :=
                          spectrum32_div (throughput st2) (float_of scattering_prob)\<rparr>)
        else next_bounce pt io st1)"

text \<open>Lines 206--251: the BSDF, the visitor's callback and the sampling of the BSDF.\<close>

definition shade_vertex ::
  "path_tracer \<Rightarrow> vertex_io \<Rightarrow> material \<Rightarrow> path_state \<Rightarrow> loop_exit" where
  "shade_vertex pt io mat st =
     (if \<not> get_bsdf mat then Break st
      else
        let outgoing = normalize (vneg (m_dir (get_ray (shading_point_ptr st))));
            st1 = log_event
                    (Visit_vertex outgoing (bsdf_mode st) (bsdf_prob st) (throughput st)) st
        in
          if \<not> visit_vertex_result io then Break st1
          else
            let st2 = st1\<lparr>bsdf_prob := sampled_prob io, bsdf_mode := sampled_mode io\<rparr>
            in
              if sampled_mode io \<notin> ScatteringModesMask pt then Break st2
              else update_throughput pt io st2)"

text \<open>Lines 184--202: the ray that continues in the direction of the incoming ray is
  traced, and the loop starts over.\<close>

definition cutoff_retrace :: "vertex_io \<Rightarrow> path_state \<Rightarrow> path_state" where
  "cutoff_retrace io st =
     (let sp = shading_point_ptr st;
          ray = get_ray sp;
          cutoff_ray = \<lparr>m_org = get_point sp, m_dir = m_dir ray, m_time = m_time ray\<rparr>
      in (log_event (Intersector_trace cutoff_ray) st)
           \<lparr>shading_point_ptr := intersector_trace cutoff_ray (next_hit io),
            iteration := Suc (iteration st)\<rparr>)"

text \<open>The body of the \<^verbatim>\<open>while (true)\<close> loop, lines 142--310.\<close>

definition trace_body :: "path_tracer \<Rightarrow> scene \<Rightarrow> path_state \<Rightarrow> loop_exit" where
  "trace_body pt scn st =
     (let sp = shading_point_ptr st;
          ray = get_ray sp;
          io = scn (iteration st)
      in
        if \<not> hit sp then
          Break (log_event
                   (Visit_environment (normalize (vneg (m_dir ray))) (bsdf_mode st)
                      (throughput st)) st)
        else
          case get_material sp of
            None \<Rightarrow> Break st
          | Some mat \<Rightarrow>
              if \<not> get_surface_shader mat then Break st
              else if fless (alpha_mask io) (Num 1) then
                let s = alpha_sample io;
                    st1 = log_event (Next_double2 s) st
                in
                  if fge s (alpha_mask io) then Continue (cutoff_retrace io st1)
                  else shade_vertex pt io mat st1
              else shade_vertex pt io mat st)"

text \<open>The loop. A walk that never leaves it has no result: \<open>None\<close>.\<close>

partial_function (option) trace_loop ::
  "path_tracer \<Rightarrow> scene \<Rightarrow> path_state \<Rightarrow> path_state option" where
  "trace_loop pt scn st =
     (case trace_body pt scn st of
        Break st' \<Rightarrow> Some st'
      | Continue st' \<Rightarrow> trace_loop pt scn st')"

text \<open>The state before the loop: throughput \<^verbatim>\<open>Spectrum(1.0f)\<close> with \<open>n\<close> components, path
  length 1, previous bounce specular with the Dirac delta probability.\<close>

definition initial_state :: "path_tracer \<Rightarrow> nat \<Rightarrow> shading_point \<Rightarrow> path_state" where
  "initial_state pt n sp =
     \<lparr>shading_point_ptr = sp,
      throughput = replicate n (Num 1),
      path_length = 1,
      bsdf_mode = Specular,
      bsdf_prob = DiracDelta pt,
      iteration = 0,
      events = []\<rparr>"

text \<open>\<^verbatim>\<open>trace\<close> from a shading point. The program returns \<open>path_length\<close>; the model returns
  the final state, which holds it together with the calls made to the visitor.\<close>

definition trace :: "path_tracer \<Rightarrow> nat \<Rightarrow> scene \<Rightarrow> shading_point \<Rightarrow> path_state option" where
  "trace pt n scn sp = trace_loop pt scn (initial_state pt n sp)"


text \<open>The state after at most \<open>k\<close> iterations of the loop: \<open>Continue\<close> while the walk is
  still inside it.\<close>

fun trace_steps :: "nat \<Rightarrow> path_tracer \<Rightarrow> scene \<Rightarrow> path_state \<Rightarrow> loop_exit" where
  "trace_steps 0 pt scn st = Continue st"
| "trace_steps (Suc k) pt scn st =
     (case trace_body pt scn st of
        Break st' \<Rightarrow> Break st'
      | Continue st' \<Rightarrow> trace_steps k pt scn st')"

fun exit_state :: "loop_exit \<Rightarrow> path_state" where
  "exit_state (Break st) = st"
| "exit_state (Continue st) = st"

section \<open>Image-based lighting (renderer/kernel/lighting/imagebasedlighting.cpp)\<close>

text \<open>
  The BSDF, the occlusion tracer and the environment EDF are outside the kernel. Their
  answers for one sample of a technique are one record, and the calls made to them are
  logged. Assertions are compiled out.
\<close>

record bsdf_sample_io =
  bs_incoming :: vec3
  bs_bsdf_value :: spectrum
  bs_bsdf_prob :: fval
  bs_bsdf_mode :: bsdf_mode
  bs_transmission :: fval
  bs_hit :: bool
  bs_env_value :: spectrum
  bs_env_prob :: fval

record env_sample_io =
  es_incoming :: vec3
  es_env_value :: spectrum
  es_env_prob :: fval
  es_transmission :: fval
  es_hit :: bool
  es_bsdf_defined :: bool
  es_bsdf_value :: spectrum
  es_bsdf_prob :: fval

datatype ibl_event =
    Bsdf_sample
  | Tracer_trace vec3
  | Environment_evaluate vec3
  | Environment_sample
  | Bsdf_evaluate vec3

text \<open>Lines 128--134: the MIS weight of a BSDF sample.\<close>

definition bsdf_sampling_mis_weight :: "fval \<Rightarrow> nat \<Rightarrow> nat \<Rightarrow> fval \<Rightarrow> fval \<Rightarrow> fval" where
  "bsdf_sampling_mis_weight dirac_delta bsdf_sample_count env_sample_count bsdf_p env_p =
     (if feq bsdf_p dirac_delta then Num 1
      else mis_power2 (fmul64 (size64 bsdf_sample_count) bsdf_p)
             (fmul64 (size64 env_sample_count) env_p))"

text \<open>Lines 228--232: the MIS weight of an environment sample.\<close>

definition env_sampling_mis_weight :: "nat \<Rightarrow> nat \<Rightarrow> fval \<Rightarrow> fval \<Rightarrow> fval" where
  "env_sampling_mis_weight bsdf_sample_count env_sample_count env_p bsdf_p =
     mis_power2 (fmul64 (size64 env_sample_count) env_p)
       (fmul64 (size64 bsdf_sample_count) bsdf_p)"

text \<open>One iteration of the loop of \<^verbatim>\<open>compute_ibl_bsdf_sampling\<close>, lines 74--139.\<close>

definition bsdf_sampling_step ::
  "fval \<Rightarrow> nat \<Rightarrow> nat \<Rightarrow> bsdf_sample_io \<Rightarrow> spectrum \<times> ibl_event list
     \<Rightarrow> spectrum \<times> ibl_event list" where
  "bsdf_sampling_step dirac_delta bsdf_sample_count env_sample_count io acc =
     (let radiance = fst acc;
          evs1 = snd acc @ [Bsdf_sample]
      in
        if bs_bsdf_mode io \<noteq> Diffuse then (radiance, evs1)
        else
          let evs2 = evs1 @ [Tracer_trace (bs_incoming io)] in
            if bs_hit io then (radiance, evs2)
            else
              let evs3 = evs2 @ [Environment_evaluate (bs_incoming io)];
                  mis_weight =
                    bsdf_sampling_mis_weight dirac_delta bsdf_sample_count env_sample_count
                      (bs_bsdf_prob io) (bs_env_prob io);
                  env_value =
                    spectrum32_scale (bs_env_value io)
                      (float_of
                         (fdiv64 (fmul64 (bs_transmission io) mis_weight) (bs_bsdf_prob io)));
                  env_value = spectrum32_mul env_value (bs_bsdf_value io)
              in (spectrum32_add radiance env_value, evs3))"

text \<open>\<^verbatim>\<open>compute_ibl_bsdf_sampling\<close>: the radiance (with \<open>n\<close> components) is set to zero, the
  samples \<open>0, \<dots>, bsdf_sample_count - 1\<close> are accumulated, and the sum is averaged.\<close>

definition compute_ibl_bsdf_sampling ::
  "fval \<Rightarrow> nat \<Rightarrow> nat \<Rightarrow> nat \<Rightarrow> (nat \<Rightarrow> bsdf_sample_io) \<Rightarrow> spectrum \<times> ibl_event list" where
  "compute_ibl_bsdf_sampling dirac_delta n bsdf_sample_count env_sample_count ios =
     (let acc = fold (\<lambda>i. bsdf_sampling_step dirac_delta bsdf_sample_count env_sample_count (ios i))
                  [0..<bsdf_sample_count] (replicate n (Num 0), [])
      in (if 1 < bsdf_sample_count
          then spectrum32_div (fst acc) (size32 bsdf_sample_count)
          else fst acc,
          snd acc))"

text \<open>One iteration of the loop of \<^verbatim>\<open>compute_ibl_environment_sampling\<close>, lines 177--237.\<close>

definition env_sampling_step ::
  "nat \<Rightarrow> nat \<Rightarrow> env_sample_io \<Rightarrow> spectrum \<times> ibl_event list \<Rightarrow> spectrum \<times> ibl_event list" where
  "env_sampling_step bsdf_sample_count env_sample_count io acc =
     (let radiance = fst acc;
          evs1 = snd acc @ [Environment_sample, Tracer_trace (es_incoming io)]
      in
        if es_hit io then (radiance, evs1)
        else
          let evs2 = evs1 @ [Bsdf_evaluate (es_incoming io)] in
            if \<not> es_bsdf_defined io then (radiance, evs2)
            else
              let mis_weight =
                    env_sampling_mis_weight bsdf_sample_count env_sample_count
                      (es_env_prob io) (es_bsdf_prob io);
                  env_value =
                    spectrum32_scale (es_env_value io)
                      (float_of
                         (fmul64 (fdiv64 (es_transmission io) (es_env_prob io)) mis_weight));
                  env_value = spectrum32_mul env_value (es_bsdf_value io)
              in (spectrum32_add radiance env_value, evs2))"

definition compute_ibl_environment_sampling ::
  "nat \<Rightarrow> nat \<Rightarrow> nat \<Rightarrow> (nat \<Rightarrow> env_sample_io) \<Rightarrow> spectrum \<times> ibl_event list" where
  "compute_ibl_environment_sampling n bsdf_sample_count env_sample_count ios =
     (let acc = fold (\<lambda>i. env_sampling_step bsdf_sample_count env_sample_count (ios i))
                  [0..<env_sample_count] (replicate n (Num 0), [])
      in (if 1 < env_sample_count
          then spectrum32_div (fst acc) (size32 env_sample_count)
          else fst acc,
          snd acc))"

text \<open>\<^verbatim>\<open>compute_image_based_lighting\<close>: the sum of the two techniques.\<close>

definition compute_image_based_lighting ::
  "fval \<Rightarrow> nat \<Rightarrow> nat \<Rightarrow> nat \<Rightarrow> (nat \<Rightarrow> bsdf_sample_io) \<Rightarrow> (nat \<Rightarrow> env_sample_io)
     \<Rightarrow> spectrum \<times> ibl_event list" where
  "compute_image_based_lighting dirac_delta n bsdf_sample_count env_sample_count bios eios =
     (let b = compute_ibl_bsdf_sampling dirac_delta n bsdf_sample_count env_sample_count bios;
          e = compute_ibl_environment_sampling n bsdf_sample_count env_sample_count eios
      in (spectrum32_add (fst b) (fst e), snd b @ snd e))"

section \<open>The visitor of the light tracer (lighttracingsamplegenerator.cpp)\<close>

text \<open>
  The camera, the transmission between two points, the evaluation of a BSDF and the
  conversion of a spectrum to linear RGB are outside the kernel: they are functions the
  visitor is given.
\<close>

record camera =
  transform_point_to_local :: "vec3 \<Rightarrow> vec3"
  transform_point_to_parent :: "vec3 \<Rightarrow> vec3"
  transform_vector_to_parent :: "vec3 \<Rightarrow> vec3"
  project :: "vec3 \<Rightarrow> vec2"
  get_film_dimensions :: vec2
  get_focal_length :: fval

record collaborators =
  compute_transmission_between :: "vec3 \<Rightarrow> vec3 \<Rightarrow> fval"
  bsdf_evaluate :: "shading_point \<Rightarrow> vec3 \<Rightarrow> vec3 \<Rightarrow> vec3 \<Rightarrow> spectrum"
  spectrum_to_linear_rgb :: "spectrum \<Rightarrow> vec3"

record sample =
  m_position :: vec2
  m_color :: "fval \<times> fval \<times> fval \<times> fval"

record path_visitor =
  m_camera :: camera
  m_camera_position :: vec3
  m_camera_direction :: vec3
  m_rcp_film_area :: fval
  m_focal_length :: fval
  m_samples :: "sample list"
  m_sample_count :: nat
  m_alpha :: spectrum

text \<open>The constructor, lines 136--161.\<close>

definition PathVisitor :: "camera \<Rightarrow> sample list \<Rightarrow> spectrum \<Rightarrow> path_visitor" where
  "PathVisitor cam samples initial_alpha =
     \<lparr>m_camera = cam,
      m_camera_position = transform_point_to_parent cam (Num 0, Num 0, Num 0),
      m_camera_direction = transform_vector_to_parent cam (Num 0, Num 0, Num (- 1)),
      m_rcp_film_area =
        fdiv (Num 1) (fmul (fst (get_film_dimensions cam)) (snd (get_film_dimensions cam))),
      m_focal_length = get_focal_length cam,
      m_samples = samples,
      m_sample_count = 0,
      m_alpha = initial_alpha\<rparr>"

text \<open>The test of lines 180--181 and 251--252.\<close>

definition outside_image_plane :: "vec2 \<Rightarrow> bool" where
  "outside_image_plane ndc =
     (fless (fst ndc) (Num 0) \<or> fge (fst ndc) (Num 1) \<or>
      fless (snd ndc) (Num 0) \<or> fge (snd ndc) (Num 1))"

text \<open>Lines 219--227 and 313--321: a sample is created and appended.\<close>

definition push_sample :: "collaborators \<Rightarrow> vec2 \<Rightarrow> spectrum \<Rightarrow> path_visitor \<Rightarrow> path_visitor" where
  "push_sample ext sample_position_ndc radiance pv =
     (let rgb = spectrum_to_linear_rgb ext radiance;
          smp = \<lparr>m_position = sample_position_ndc,
                 m_color = (fst rgb, fst (snd rgb), snd (snd rgb), Num 1)\<rparr>
      in pv\<lparr>m_samples := m_samples pv @ [smp], m_sample_count := m_sample_count pv + 1\<rparr>)"

text \<open>\<^verbatim>\<open>visit_light_vertex\<close>, lines 168--228.\<close>

definition visit_light_vertex :: "collaborators \<Rightarrow> path_visitor \<Rightarrow> vec3 \<Rightarrow> path_visitor" where
  "visit_light_vertex ext pv vertex_position_world =
     (let vertex_position_camera =
            transform_point_to_local (m_camera pv) vertex_position_world;
          sample_position_ndc = project (m_camera pv) vertex_position_camera
      in
        if outside_image_plane sample_position_ndc then pv
        else
          let transmission =
                compute_transmission_between ext (m_camera_position pv) vertex_position_world
          in
            if feq transmission (Num 0) then pv
            else
              let vertex_to_camera = vsub (m_camera_position pv) vertex_position_world;
                  square_distance = square_norm vertex_to_camera;
                  vertex_to_camera = vdiv vertex_to_camera (fsqrt square_distance);
                  cos_theta = fabs (dot (vneg vertex_to_camera) (m_camera_direction pv));
                  dist_pixel_to_camera = fdiv (m_focal_length pv) cos_theta;
                  flux_to_radiance =
                    fmul (square (fdiv dist_pixel_to_camera cos_theta)) (m_rcp_film_area pv);
                  g = fdiv cos_theta square_distance;
                  radiance =
                    spectrum_scale (m_alpha pv) (fmul (fmul transmission g) flux_to_radiance)
              in push_sample ext sample_position_ndc radiance pv)"

text \<open>\<^verbatim>\<open>visit_vertex\<close>, lines 230--322.\<close>

definition visit_vertex ::
  "collaborators \<Rightarrow> path_visitor \<Rightarrow> shading_point \<Rightarrow> vec3 \<Rightarrow> spectrum \<Rightarrow> path_visitor" where
  "visit_vertex ext pv shading_point outgoing throughput_in =
     (let vertex_position_world = get_point shading_point;
          vertex_position_camera =
            transform_point_to_local (m_camera pv) vertex_position_world;
          sample_position_ndc = project (m_camera pv) vertex_position_camera
      in
        if outside_image_plane sample_position_ndc then pv
        else
          let transmission =
                compute_transmission_between ext (m_camera_position pv) vertex_position_world
          in
            if feq transmission (Num 0) then pv
            else
              let vertex_to_camera = vsub (m_camera_position pv) vertex_position_world;
                  square_distance = square_norm vertex_to_camera;
                  vertex_to_camera = vdiv vertex_to_camera (fsqrt square_distance);
                  shading_normal = get_shading_normal shading_point;
                  geometric_normal = get_geometric_normal shading_point;
                  geometric_normal =
                    (if fless (dot shading_normal geometric_normal) (Num 0)
                     then vneg geometric_normal else geometric_normal);
                  bsdf_value =
                    bsdf_evaluate ext shading_point geometric_normal outgoing vertex_to_camera;
                  cos_theta = fabs (dot (vneg vertex_to_camera) (m_camera_direction pv));
                  dist_pixel_to_camera = fdiv (m_focal_length pv) cos_theta;
                  flux_to_radiance =
                    fmul (square (fdiv dist_pixel_to_camera cos_theta)) (m_rcp_film_area pv);
                  g = fdiv cos_theta square_distance;
                  pv1 = pv\<lparr>m_alpha := spectrum_mul (m_alpha pv) throughput_in\<rparr>;
                  radiance = spectrum_mul (m_alpha pv1) bsdf_value;
                  radiance =
                    spectrum_scale radiance (fmul (fmul transmission g) flux_to_radiance)
              in push_sample ext sample_position_ndc radiance pv1)"

section \<open>Observations on a walk\<close>





text \<open>The transparency-retry test of lines 176--182.\<close>

definition takes_cutoff :: "vertex_io \<Rightarrow> bool" where
  "takes_cutoff io = (fless (alpha_mask io) (Num 1) \<and> fge (alpha_sample io) (alpha_mask io))"


text \<open>The answers of an iteration in which the sampled BSDF value has no negative
  component, the sampled probability is the Dirac delta or positive, and the sample drawn
  for Russian roulette is not negative.\<close>

definition nonnegative_sample :: "path_tracer \<Rightarrow> vertex_io \<Rightarrow> bool" where
  "nonnegative_sample pt io =
     (list_all not_negative (sampled_value io)
      \<and> (feq (sampled_prob io) (DiracDelta pt) \<or> fless (Num 0) (sampled_prob io))
      \<and> not_negative (rr_sample io))"

text \<open>A value a double operation can return without being negative: NaN, the positive
  infinity, or a number that rounding to double leaves as it is.\<close>

definition double_value :: "fval \<Rightarrow> bool" where
  "double_value v =
     (case v of Num a \<Rightarrow> 0 \<le> a \<and> round_to_format binary64 a = Num a
      | PosInf \<Rightarrow> True | NegInf \<Rightarrow> False | NaN \<Rightarrow> True)"

section \<open>The conversion factor as the specification words it\<close>

text \<open>The specification's "\<open>dist_pixel_to_camera\<^sup>2 \<times> rcp_film_area\<close> where
  \<open>dist_pixel_to_camera = focal_length / cos \<theta>\<close>", to be compared with the factor the
  visitor computes.\<close>

definition claimed_flux_to_radiance :: "fval \<Rightarrow> fval \<Rightarrow> fval \<Rightarrow> fval" where
  "claimed_flux_to_radiance focal_length cos_theta rcp_film_area =
     (let dist_pixel_to_camera = fdiv focal_length cos_theta
      in fmul (square dist_pixel_to_camera) rcp_film_area)"

section \<open>Example inputs\<close>

text \<open>A ray down the negative z axis, a surface point with a material, a miss, a tracer
  without Russian roulette or bounce limit, and the answers of an opaque diffuse surface
  and of a half-transparent one.\<close>

definition down_ray :: shading_ray where
  "down_ray = \<lparr>m_org = (Num 0, Num 0, Num 0), m_dir = (Num 0, Num 0, Num (- 1)), m_time = Num 0\<rparr>"

definition bound_material :: material where
  "bound_material = \<lparr>get_surface_shader = True, get_bsdf = True\<rparr>"

definition surface_hit :: shading_point where
  "surface_hit =
     \<lparr>get_ray = down_ray, hit = True, get_point = (Num 0, Num 0, Num (- 1)),
      get_material = Some bound_material,
      get_shading_normal = (Num 0, Num 0, Num 1),
      get_geometric_normal = (Num 0, Num 0, Num 1)\<rparr>"

definition miss :: shading_point where
  "miss = surface_hit\<lparr>hit := False, get_material := None\<rparr>"

definition plain_tracer :: path_tracer where
  "plain_tracer =
     \<lparr>m_rr_min_path_length = 0, m_max_path_length = 0,
      ScatteringModesMask = {Diffuse, Glossy, Specular}, DiracDelta = Num (- 1)\<rparr>"

definition diffuse_io :: vertex_io where
  "diffuse_io =
     \<lparr>alpha_mask = Num 1, alpha_sample = Num (3 / 4), visit_vertex_result = True,
      sampled_incoming = (Num 0, Num 0, Num 1),
      sampled_value = [Num (1 / 4), Num (1 / 4), Num (1 / 4)],
      sampled_prob = Num (1 / 2), sampled_mode = Diffuse,
      rr_sample = Num (1 / 4), next_hit = miss\<rparr>"

definition half_transparent_io :: vertex_io where
  "half_transparent_io = diffuse_io\<lparr>alpha_mask := Num (1 / 2), next_hit := surface_hit\<rparr>"




definition transparent_io :: vertex_io where
  "transparent_io = diffuse_io\<lparr>alpha_mask := Num 0, next_hit := surface_hit\<rparr>"

definition blowup_io :: vertex_io where
  "blowup_io =
     diffuse_io\<lparr>sampled_value := [PosInf, PosInf, PosInf], sampled_prob := Num (1 / 1000000)\<rparr>"

text \<open>The answers of a BSDF whose value \<open>2\<^bsup>100\<^esup>\<close> and probability \<open>2\<^bsup>-100\<^esup>\<close> are finite
  floats.\<close>

definition overflow_io :: vertex_io where
  "overflow_io =
     diffuse_io\<lparr>sampled_value := [Num (2 ^ 100), Num (2 ^ 100), Num (2 ^ 100)],
                sampled_prob := Num (1 / 2 ^ 100)\<rparr>"

text \<open>An unoccluded diffuse BSDF sample of the image-based lighting.\<close>

definition diffuse_sample :: bsdf_sample_io where
  "diffuse_sample =
     \<lparr>bs_incoming = (Num 0, Num 0, Num 1),
      bs_bsdf_value = [Num (1 / 2), Num (1 / 2), Num (1 / 2)],
      bs_bsdf_prob = Num (1 / 2), bs_bsdf_mode = Diffuse,
      bs_transmission = Num 1, bs_hit = False,
      bs_env_value = [Num 2, Num 2, Num 2], bs_env_prob = Num (1 / 2)\<rparr>"


text \<open>The double next above 1, \<open>1 + 2\<^bsup>-52\<^esup>\<close>.\<close>

definition next_above_one :: fval where
  "next_above_one = Num (4503599627370497 / 4503599627370496)"

text \<open>A glossy BSDF sample of the image-based lighting.\<close>

definition glossy_sample :: bsdf_sample_io where
  "glossy_sample = diffuse_sample\<lparr>bs_bsdf_mode := Glossy\<rparr>"

text \<open>A camera at the origin that looks down the negative z axis, with focal length 1
  and a film of area 1, and that projects every point to the centre of the image; a world
  without occluders and one where everything is occluded; a point 5 away from the camera
  at the angle of cosine 4/5; a visitor with the particle weight 1.\<close>

definition pinhole :: camera where
  "pinhole =
     \<lparr>transform_point_to_local = (\<lambda>p. p),
      transform_point_to_parent = (\<lambda>p. p),
      transform_vector_to_parent = (\<lambda>v. v),
      project = (\<lambda>p. (Num (1 / 2), Num (1 / 2))),
      get_film_dimensions = (Num 1, Num 1),
      get_focal_length = Num 1\<rparr>"

definition clear_air :: collaborators where
  "clear_air =
     \<lparr>compute_transmission_between = (\<lambda>a b. Num 1),
      bsdf_evaluate = (\<lambda>sp n outgoing incoming. [Num 1, Num 1, Num 1]),
      spectrum_to_linear_rgb = (\<lambda>s. (s ! 0, s ! 1, s ! 2))\<rparr>"

definition blocked :: collaborators where
  "blocked = clear_air\<lparr>compute_transmission_between := (\<lambda>a b. Num 0)\<rparr>"

definition off_axis_point :: vec3 where
  "off_axis_point = (Num 0, Num 3, Num (- 4))"

definition off_axis_hit :: shading_point where
  "off_axis_hit = surface_hit\<lparr>get_point := off_axis_point\<rparr>"

definition white_visitor :: path_visitor where
  "white_visitor = PathVisitor pinhole [] [Num 1, Num 1, Num 1]"

section \<open>Properties of rounding\<close>

text \<open>Rounding to an integer is monotone and leaves integers as they are.\<close>

lemma round_half_even_of_int [simp]: "round_half_even (of_int n) = n"
  by (simp add: round_half_even_def)

lemma round_half_even_bounds: "\<lfloor>x\<rfloor> \<le> round_half_even x \<and> round_half_even x \<le> \<lfloor>x\<rfloor> + 1"
  by (simp add: round_half_even_def Let_def)

lemma round_half_even_mono:
  assumes "x \<le> y"
  shows "round_half_even x \<le> round_half_even y"
proof (cases "\<lfloor>x\<rfloor> = \<lfloor>y\<rfloor>")
  case True
  then have "x - of_int \<lfloor>x\<rfloor> \<le> y - of_int \<lfloor>y\<rfloor>" using assms by simp
  with True show ?thesis by (auto simp: round_half_even_def Let_def)
next
  case False
  with assms have "\<lfloor>x\<rfloor> < \<lfloor>y\<rfloor>" by (simp add: floor_mono order.strict_iff_order)
  with round_half_even_bounds[of x] round_half_even_bounds[of y] show ?thesis by linarith
qed

lemma round_half_even_le_int: "x \<le> of_int n \<Longrightarrow> round_half_even x \<le> n"
  using round_half_even_mono[of x "of_int n"] by simp

lemma round_half_even_ge_int: "of_int n \<le> x \<Longrightarrow> n \<le> round_half_even x"
  using round_half_even_mono[of "of_int n" x] by simp

text \<open>The exponent of the quantum of \<open>x\<close> is fixed by the binade of \<open>x\<close>.\<close>

lemma floor_log2_eq:
  assumes "0 < x"
  shows "\<lfloor>log 2 x\<rfloor> = k \<longleftrightarrow> 2 powi k \<le> x \<and> x < 2 powi (k + 1)"
  using floor_log_eq_powr_iff[of x 2 k] assms
    powr_real_of_int'[of 2 k] powr_real_of_int'[of 2 "k + 1"]
  by simp

lemma quantum_exponent_eq:
  assumes "0 < x" and "2 powi e \<le> x" and "x < 2 powi (e + 1)"
  shows "quantum_exponent F x = max e (emin F) - (int (precision F) - 1)"
proof -
  have "\<lfloor>log 2 x\<rfloor> = e" using assms by (simp add: floor_log2_eq)
  with assms(1) show ?thesis by (simp add: quantum_exponent_def)
qed

text \<open>A value that is not negative is rounded to one that is not negative.\<close>

lemma nearest_nonneg: "0 \<le> x \<Longrightarrow> 0 \<le> nearest F x"
proof -
  assume "0 \<le> x"
  then have "0 \<le> x / 2 powi quantum_exponent F x" by simp
  then have "0 \<le> round_half_even (x / 2 powi quantum_exponent F x)"
    using round_half_even_ge_int[of 0] by simp
  then show ?thesis by (simp add: nearest_def Let_def)
qed

lemma round_to_format_nonneg:
  assumes "0 \<le> x"
  shows "round_to_format F x = PosInf \<or> (\<exists>y. round_to_format F x = Num y \<and> 0 \<le> y)"
  using assms nearest_nonneg[OF assms, of F] by (auto simp: round_to_format_def)

lemma two_powi_precision:
  "0 < precision F \<Longrightarrow> (2::real) powi (int (precision F) - 1) = of_int (2 ^ (precision F - 1))"
  by (cases "precision F") (simp_all add: power_int_def)

lemma scaled_binade:
  assumes "0 < precision F"
  shows "(2::real) ^ (precision F - 1) * 2 powi (e - (int (precision F) - 1)) = 2 powi e"
proof -
  have "(2::real) ^ (precision F - 1) = 2 powi (int (precision F) - 1)"
    using two_powi_precision[OF assms] by simp
  then have "(2::real) ^ (precision F - 1) * 2 powi (e - (int (precision F) - 1))
      = 2 powi (int (precision F) - 1) * 2 powi (e - (int (precision F) - 1))" by simp
  also have "\<dots> = 2 powi e"
    using power_int_add[of "2::real" "int (precision F) - 1" "e - (int (precision F) - 1)"]
    by simp
  finally show ?thesis .
qed

lemma log2_bracket:
  assumes "0 < x"
  shows "2 powi \<lfloor>log 2 x\<rfloor> \<le> x \<and> x < 2 powi (\<lfloor>log 2 x\<rfloor> + 1)"
  using floor_log2_eq[OF assms, of "\<lfloor>log 2 x\<rfloor>"] by simp

text \<open>With \<open>e = max \<lfloor>log\<^sub>2 x\<rfloor> emin\<close>: \<open>x\<close> lies below \<open>2\<^sup>e\<^sup>+\<^sup>1\<close>, and so does its nearest value.\<close>

lemma below_next_binade:
  assumes "0 < x"
  shows "x < 2 powi (max \<lfloor>log 2 x\<rfloor> (emin F) + 1)"
proof -
  have "x < 2 powi (\<lfloor>log 2 x\<rfloor> + 1)" using log2_bracket[OF assms] by simp
  also have "\<dots> \<le> 2 powi (max \<lfloor>log 2 x\<rfloor> (emin F) + 1)"
    by (rule power_int_increasing) simp_all
  finally show ?thesis .
qed

lemma nearest_le_next_binade:
  assumes "0 < x" and "0 < precision F"
  shows "nearest F x \<le> 2 powi (max \<lfloor>log 2 x\<rfloor> (emin F) + 1)"
proof -
  define e where "e = max \<lfloor>log 2 x\<rfloor> (emin F)"
  define q where "q = e - (int (precision F) - 1)"
  have q: "quantum_exponent F x = q" using assms(1) by (simp add: quantum_exponent_def q_def e_def)
  have "x < 2 powi (e + 1)" unfolding e_def by (rule below_next_binade[OF assms(1)])
  then have "x / 2 powi q < 2 powi (e + 1) / 2 powi q" by (simp add: divide_strict_right_mono)
  also have "2 powi (e + 1) / 2 powi q = (2::real) powi (e + 1 - q)" by (simp add: power_int_diff)
  also have "e + 1 - q = int (precision F)" by (simp add: q_def)
  finally have "x / 2 powi q \<le> of_int (2 ^ precision F)" by simp
  then have "round_half_even (x / 2 powi q) \<le> 2 ^ precision F" by (rule round_half_even_le_int)
  then have "of_int (round_half_even (x / 2 powi q)) \<le> (2::real) ^ precision F"
    by (metis of_int_le_iff of_int_numeral of_int_power)
  then have "nearest F x \<le> 2 ^ precision F * 2 powi q"
    by (simp add: nearest_def q Let_def)
  also have "(2::real) ^ precision F * 2 powi q = 2 powi (int (precision F) + q)"
    by (simp add: power_int_add)
  also have "int (precision F) + q = e + 1" by (simp add: q_def)
  finally show ?thesis by (simp add: e_def)
qed

lemma nearest_ge_binade:
  assumes "0 < x" and "0 < precision F" and "2 powi e \<le> x"
    and "quantum_exponent F x = e - (int (precision F) - 1)"
  shows "2 powi e \<le> nearest F x"
proof -
  define q where "q = e - (int (precision F) - 1)"
  have "(2::real) powi (e - q) = 2 powi e / 2 powi q" by (simp add: power_int_diff)
  also have "\<dots> \<le> x / 2 powi q" using assms(3) by (simp add: divide_right_mono)
  finally have "of_int (2 ^ (precision F - 1)) \<le> x / 2 powi q"
    using two_powi_precision[OF assms(2)] by (simp add: q_def)
  then have "2 ^ (precision F - 1) \<le> round_half_even (x / 2 powi q)"
    by (rule round_half_even_ge_int)
  then have "(2::real) ^ (precision F - 1) \<le> of_int (round_half_even (x / 2 powi q))"
    by (metis of_int_le_iff of_int_numeral of_int_power)
  then have "2 ^ (precision F - 1) * 2 powi q \<le> nearest F x"
    by (simp add: nearest_def assms(4) q_def Let_def)
  moreover have "(2::real) ^ (precision F - 1) * 2 powi q = 2 powi e"
    unfolding q_def by (rule scaled_binade[OF assms(2)])
  ultimately show ?thesis by simp
qed

text \<open>Rounding is monotone on the values that are not negative, and a value of the format
  is rounded to itself.\<close>

lemma nearest_mono:
  assumes "0 < x" and "x \<le> x'" and "0 < precision F"
  shows "nearest F x \<le> nearest F x'"
proof -
  have x': "0 < x'" using assms by simp
  define e where "e = max \<lfloor>log 2 x\<rfloor> (emin F)"
  define e' where "e' = max \<lfloor>log 2 x'\<rfloor> (emin F)"
  have "log 2 x \<le> log 2 x'" using assms by simp
  then have "\<lfloor>log 2 x\<rfloor> \<le> \<lfloor>log 2 x'\<rfloor>" by (rule floor_mono)
  then have ee: "e \<le> e'" unfolding e_def e'_def by linarith
  have q: "quantum_exponent F x = e - (int (precision F) - 1)"
    and q': "quantum_exponent F x' = e' - (int (precision F) - 1)"
    using assms(1) x' by (simp_all add: quantum_exponent_def e_def e'_def)
  show ?thesis
  proof (cases "e = e'")
    case True
    have "x / 2 powi (e - (int (precision F) - 1)) \<le> x' / 2 powi (e - (int (precision F) - 1))"
      using assms(2) by (simp add: divide_right_mono)
    then have "round_half_even (x / 2 powi (e - (int (precision F) - 1)))
         \<le> round_half_even (x' / 2 powi (e - (int (precision F) - 1)))"
      by (rule round_half_even_mono)
    then show ?thesis by (simp add: nearest_def q q' True[symmetric] Let_def mult_right_mono)
  next
    case False
    with ee have lt: "e < e'" by simp
    then have "e' = \<lfloor>log 2 x'\<rfloor>" unfolding e_def e'_def by (auto simp: max_def split: if_splits)
    then have "2 powi e' \<le> x'" using log2_bracket[OF x'] by simp
    then have "2 powi e' \<le> nearest F x'" using nearest_ge_binade[OF x' assms(3) _ q'] by simp
    moreover have "nearest F x \<le> 2 powi (e + 1)"
      using nearest_le_next_binade[OF assms(1,3)] by (simp add: e_def)
    moreover have "(2::real) powi (e + 1) \<le> 2 powi e'"
      using lt by (intro power_int_increasing) simp_all
    ultimately show ?thesis by linarith
  qed
qed

lemma nearest_fixed:
  assumes "y = of_int m * 2 powi quantum_exponent F y"
  shows "nearest F y = y"
proof -
  have "y / 2 powi quantum_exponent F y = of_int m"
    by (subst assms) simp
  then show ?thesis using assms by (simp add: nearest_def Let_def)
qed

lemma nearest_idem:
  assumes "0 < x" and "0 < precision F"
  shows "nearest F (nearest F x) = nearest F x"
proof -
  define e where "e = max \<lfloor>log 2 x\<rfloor> (emin F)"
  define q where "q = e - (int (precision F) - 1)"
  define m where "m = round_half_even (x / 2 powi q)"
  define y where "y = nearest F x"
  have q: "quantum_exponent F x = q" using assms(1) by (simp add: quantum_exponent_def q_def e_def)
  have y: "y = of_int m * 2 powi q" by (simp add: y_def nearest_def q m_def Let_def)
  have y0: "0 \<le> y" unfolding y_def using assms(1) by (simp add: nearest_nonneg)
  have ub: "y \<le> 2 powi (e + 1)"
    unfolding y_def e_def by (rule nearest_le_next_binade[OF assms])
  have emin: "emin F \<le> e" by (simp add: e_def)
  show ?thesis
  proof (cases "y = 0")
    case True
    then have "y = of_int 0 * 2 powi quantum_exponent F y" by simp
    then show ?thesis unfolding y_def[symmetric] by (rule nearest_fixed)
  next
    case False
    with y0 have ypos: "0 < y" by simp
    show ?thesis
    proof (cases "y = 2 powi (e + 1)")
      case True
      then have "\<lfloor>log 2 y\<rfloor> = e + 1" using ypos by (simp add: floor_log2_eq power_int_strict_increasing)
      then have "quantum_exponent F y = q + 1"
        using ypos emin by (simp add: quantum_exponent_def q_def)
      moreover have "y = of_int (2 ^ (precision F - 1)) * 2 powi (q + 1)"
      proof -
        have "q + 1 = (e + 1) - (int (precision F) - 1)" by (simp add: q_def)
        then have "(2::real) ^ (precision F - 1) * 2 powi (q + 1) = 2 powi (e + 1)"
          using scaled_binade[OF assms(2), of "e + 1"] by simp
        with True show ?thesis by simp
      qed
      ultimately have "y = of_int (2 ^ (precision F - 1)) * 2 powi quantum_exponent F y" by simp
      then show ?thesis unfolding y_def[symmetric] by (rule nearest_fixed)
    next
      case False
      with ub have lt: "y < 2 powi (e + 1)" by simp
      have "quantum_exponent F y = q"
      proof (cases "2 powi e \<le> y")
        case True
        with lt ypos have "\<lfloor>log 2 y\<rfloor> = e" by (simp add: floor_log2_eq)
        then show ?thesis using ypos emin by (simp add: quantum_exponent_def q_def)
      next
        case False
        then have ylt: "y < 2 powi e" by simp
        have "\<not> 2 powi e \<le> x"
        proof
          assume "2 powi e \<le> x"
          then have "2 powi e \<le> nearest F x"
            using nearest_ge_binade[OF assms(1,2) _ q[unfolded q_def]] by simp
          with ylt show False by (simp add: y_def)
        qed
        then have "x < 2 powi e" by simp
        then have "\<lfloor>log 2 x\<rfloor> \<noteq> e" using log2_bracket[OF assms(1)] by auto
        then have e: "e = emin F" unfolding e_def by (auto simp: max_def split: if_splits)
        have "\<lfloor>log 2 y\<rfloor> < e"
        proof (rule ccontr)
          assume "\<not> \<lfloor>log 2 y\<rfloor> < e"
          then have "(2::real) powi e \<le> 2 powi \<lfloor>log 2 y\<rfloor>"
            by (intro power_int_increasing) simp_all
          with log2_bracket[OF ypos] ylt show False by linarith
        qed
        then show ?thesis using ypos e by (simp add: quantum_exponent_def q_def)
      qed
      with y have "y = of_int m * 2 powi quantum_exponent F y" by simp
      then show ?thesis unfolding y_def[symmetric] by (rule nearest_fixed)
    qed
  qed
qed

lemma round_to_format_mono:
  assumes "0 \<le> x" and "x \<le> x'" and "0 < precision F"
    and "round_to_format F x' = Num y'"
  shows "\<exists>y. round_to_format F x = Num y \<and> 0 \<le> y \<and> y \<le> y'"
proof (cases "x = 0")
  case True
  have "0 \<le> x'" using assms by simp
  from round_to_format_nonneg[OF this, of F] assms(4) have "0 \<le> y'" by auto
  with True show ?thesis by (simp add: round_to_format_def)
next
  case False
  with assms have x: "0 < x" and x': "0 < x'" by simp_all
  have le: "nearest F x \<le> nearest F x'" by (rule nearest_mono[OF x assms(2,3)])
  have y': "y' = nearest F x'" and small: "\<not> 2 powi (emax F + 1) \<le> \<bar>nearest F x'\<bar>"
    using assms(4) x' by (auto simp: round_to_format_def split: if_splits)
  have n0: "0 \<le> nearest F x" using x by (simp add: nearest_nonneg)
  with le small have "\<not> 2 powi (emax F + 1) \<le> \<bar>nearest F x\<bar>" by simp
  with x have "round_to_format F x = Num (nearest F x)" by (simp add: round_to_format_def)
  with le n0 y' show ?thesis by simp
qed

lemma round_to_format_idem:
  assumes "0 \<le> x" and "0 < precision F" and "round_to_format F x = Num y"
  shows "round_to_format F y = Num y"
proof (cases "x = 0 \<or> y = 0")
  case True
  with assms(3) show ?thesis by (auto simp: round_to_format_def)
next
  case False
  with assms have x: "0 < x" and y0: "y \<noteq> 0" by simp_all
  have y: "y = nearest F x" and small: "\<not> 2 powi (emax F + 1) \<le> \<bar>nearest F x\<bar>"
    using assms(3) x by (auto simp: round_to_format_def split: if_splits)
  have "nearest F y = y" unfolding y by (rule nearest_idem[OF x assms(2)])
  with y0 small y show ?thesis by (simp add: round_to_format_def)
qed

text \<open>The error of a rounding: at most half a quantum; in the normal range at most the
  fraction \<open>2\<^bsup>-p\<^esup>\<close> of the value; none for a multiple of the smallest quantum below the
  normal range.\<close>

lemma round_half_even_error: "\<bar>of_int (round_half_even x) - x\<bar> \<le> 1 / 2"
proof -
  have "of_int \<lfloor>x\<rfloor> \<le> x" "x < of_int \<lfloor>x\<rfloor> + 1" by linarith+
  then show ?thesis by (auto simp: round_half_even_def Let_def abs_if; linarith)
qed

lemma nearest_error: "\<bar>nearest F x - x\<bar> \<le> 2 powi quantum_exponent F x / 2"
proof -
  define q where "q = quantum_exponent F x"
  have pos: "(0::real) < 2 powi q" by simp
  have "nearest F x - x = (of_int (round_half_even (x / 2 powi q)) - x / 2 powi q) * 2 powi q"
    by (simp add: nearest_def Let_def q_def algebra_simps)
  then have "\<bar>nearest F x - x\<bar> = \<bar>of_int (round_half_even (x / 2 powi q)) - x / 2 powi q\<bar> * 2 powi q"
    by (simp add: abs_mult)
  also have "\<dots> \<le> 1 / 2 * 2 powi q"
    using round_half_even_error[of "x / 2 powi q"] pos by (intro mult_right_mono) simp_all
  finally show ?thesis by (simp add: q_def)
qed

lemma binade_ge_emin:
  assumes "2 powi emin F \<le> x"
  shows "emin F \<le> \<lfloor>log 2 x\<rfloor>"
proof -
  have x: "0 < x" using assms by (rule less_le_trans[rotated]) simp
  have "(2::real) powi emin F < 2 powi (\<lfloor>log 2 x\<rfloor> + 1)"
    using log2_bracket[OF x] assms by linarith
  moreover have "(2::real) powi (\<lfloor>log 2 x\<rfloor> + 1) \<le> 2 powi emin F" if "\<lfloor>log 2 x\<rfloor> + 1 \<le> emin F"
    using that by (intro power_int_increasing) simp_all
  ultimately show ?thesis by fastforce
qed

lemma nearest_relative_error:
  assumes "0 < precision F" and "2 powi emin F \<le> x"
  shows "\<bar>nearest F x - x\<bar> \<le> x * 2 powi (- int (precision F))"
proof -
  define e where "e = \<lfloor>log 2 x\<rfloor>"
  have x: "0 < x" using assms(2) by (rule less_le_trans[rotated]) simp
  have e: "emin F \<le> e" unfolding e_def by (rule binade_ge_emin[OF assms(2)])
  then have q: "quantum_exponent F x = e - (int (precision F) - 1)"
    using x by (simp add: quantum_exponent_def e_def)
  have "(2::real) powi (e - (int (precision F) - 1)) / 2 = 2 powi (e - int (precision F))"
    using power_int_add[of "2::real" "e - int (precision F)" 1] by (simp add: algebra_simps)
  also have "\<dots> = 2 powi e * 2 powi (- int (precision F))"
    using power_int_add[of "2::real" e "- int (precision F)"] by simp
  also have "\<dots> \<le> x * 2 powi (- int (precision F))"
    using log2_bracket[OF x] by (intro mult_right_mono) (simp_all add: e_def)
  finally show ?thesis using nearest_error[of F x] q by simp
qed

lemma subnormal_quantum:
  assumes "0 < x" and "x < 2 powi emin F"
  shows "quantum_exponent F x = emin F - (int (precision F) - 1)"
proof -
  have "\<lfloor>log 2 x\<rfloor> \<le> emin F"
  proof (rule ccontr)
    assume "\<not> \<lfloor>log 2 x\<rfloor> \<le> emin F"
    then have "(2::real) powi emin F \<le> 2 powi \<lfloor>log 2 x\<rfloor>"
      by (intro power_int_increasing) simp_all
    with log2_bracket[OF assms(1)] assms(2) show False by linarith
  qed
  then show ?thesis using assms(1) by (simp add: quantum_exponent_def max_def)
qed

lemma nearest_subnormal_exact:
  assumes "0 < x" and "x < 2 powi emin F"
    and "x = of_int n * 2 powi (emin F - (int (precision F) - 1))"
  shows "nearest F x = x"
  using assms(3) subnormal_quantum[OF assms(1,2)] by (intro nearest_fixed[of _ n]) simp

lemma nearest_multiple:
  "\<exists>n. nearest F x = of_int n * 2 powi (emin F - (int (precision F) - 1))"
proof -
  define q where "q = quantum_exponent F x"
  define q0 where "q0 = emin F - (int (precision F) - 1)"
  have "q0 \<le> q" by (simp add: q_def q0_def quantum_exponent_def)
  then have "(2::real) powi q = 2 powi (q - q0) * 2 powi q0"
    using power_int_add[of "2::real" "q - q0" q0] by simp
  also have "(2::real) powi (q - q0) = of_int (2 ^ nat (q - q0))"
    using \<open>q0 \<le> q\<close> by (simp add: power_int_def)
  finally have "nearest F x =
      of_int (round_half_even (x / 2 powi q) * 2 ^ nat (q - q0)) * 2 powi q0"
    by (simp add: nearest_def Let_def q_def)
  then show ?thesis unfolding q0_def by blast
qed

lemma format_value_multiple:
  assumes "round_to_format F a = Num a"
  shows "\<exists>n. a = of_int n * 2 powi (emin F - (int (precision F) - 1))"
proof (cases "a = 0")
  case True
  then have "a = of_int 0 * 2 powi (emin F - (int (precision F) - 1))" by simp
  then show ?thesis by blast
next
  case False
  with assms have "a = nearest F a" by (auto simp: round_to_format_def split: if_splits)
  with nearest_multiple[of F a] show ?thesis by metis
qed

text \<open>The value of a rounding, for an \<open>x\<close> whose binade \<open>[2\<^sup>e, 2\<^sup>e\<^sup>+\<^sup>1)\<close> is known.\<close>

lemma round_to_format_eval:
  assumes "0 < x" and "2 powi e \<le> x" and "x < 2 powi (e + 1)"
  shows "round_to_format F x =
     (let q = max e (emin F) - (int (precision F) - 1);
          y = of_int (round_half_even (x / 2 powi q)) * 2 powi q
      in if 2 powi (emax F + 1) \<le> y then PosInf else Num y)"
proof -
  have q: "quantum_exponent F x = max e (emin F) - (int (precision F) - 1)"
    by (rule quantum_exponent_eq[OF assms])
  have "0 \<le> nearest F x" using assms(1) by (simp add: nearest_nonneg)
  then show ?thesis using assms(1) q
    by (simp add: round_to_format_def nearest_def Let_def)
qed

lemma round_to_format_power2:
  assumes "emin F \<le> k" and "k \<le> emax F" and "0 < precision F"
  shows "round_to_format F (2 powi k) = Num (2 powi k)"
proof -
  have e: "\<lfloor>log 2 (2 powi k)\<rfloor> = k" by (simp add: floor_log2_eq power_int_strict_increasing)
  then have q: "quantum_exponent F (2 powi k) = k - (int (precision F) - 1)"
    using assms(1) by (simp add: quantum_exponent_def)
  have "(2::real) powi k = of_int (2 ^ (precision F - 1)) * 2 powi quantum_exponent F (2 powi k)"
    unfolding q using scaled_binade[OF assms(3), of k] by simp
  then have "nearest F (2 powi k) = 2 powi k" by (rule nearest_fixed)
  moreover have "(2::real) powi k < 2 powi (emax F + 1)"
    using assms(2) by (intro power_int_strict_increasing) simp_all
  ultimately show ?thesis by (simp add: round_to_format_def)
qed

lemma round_to_format_neg_power2:
  assumes "emin F \<le> k" and "k \<le> emax F" and "0 < precision F"
  shows "round_to_format F (- (2 powi k)) = Num (- (2 powi k))"
proof -
  have e: "\<lfloor>log 2 (2 powi k)\<rfloor> = k" by (simp add: floor_log2_eq power_int_strict_increasing)
  then have q: "quantum_exponent F (- (2 powi k)) = k - (int (precision F) - 1)"
    using assms(1) by (simp add: quantum_exponent_def)
  have "- ((2::real) powi k)
      = of_int (- (2 ^ (precision F - 1))) * 2 powi quantum_exponent F (- (2 powi k))"
    unfolding q using scaled_binade[OF assms(3), of k] by simp
  then have "nearest F (- (2 powi k)) = - (2 powi k)" by (rule nearest_fixed)
  moreover have "(2::real) powi k < 2 powi (emax F + 1)"
    using assms(2) by (intro power_int_strict_increasing) simp_all
  ultimately show ?thesis by (simp add: round_to_format_def)
qed

text \<open>The roundings the examples need.\<close>

lemma round_to_format_zero: "round_to_format F 0 = Num 0"
  by (simp add: round_to_format_def)

lemma round32_values:
  "round_to_format binary32 1 = Num 1"
  "round_to_format binary32 2 = Num 2"
  "round_to_format binary32 (1 / 2) = Num (1 / 2)"
  "round_to_format binary32 (- 1) = Num (- 1)"
  "round_to_format binary32 (- 2) = Num (- 2)"
  using round_to_format_power2[of binary32 0] round_to_format_power2[of binary32 1]
    round_to_format_power2[of binary32 "- 1"]
    round_to_format_neg_power2[of binary32 0] round_to_format_neg_power2[of binary32 1]
  by (simp_all add: binary32_def)

lemma round64_values:
  "round_to_format binary64 1 = Num 1"
  "round_to_format binary64 2 = Num 2"
  "round_to_format binary64 4 = Num 4"
  "round_to_format binary64 (1 / 2) = Num (1 / 2)"
  "round_to_format binary64 (1 / 4) = Num (1 / 4)"
  "round_to_format binary64 (- 1) = Num (- 1)"
  using round_to_format_power2[of binary64 0] round_to_format_power2[of binary64 1]
    round_to_format_power2[of binary64 2]
    round_to_format_power2[of binary64 "- 1"] round_to_format_power2[of binary64 "- 2"]
    round_to_format_neg_power2[of binary64 0]
  by (simp_all add: binary64_def)

lemma round64_one: "round_to_format binary64 1 = Num 1"
  using round_to_format_power2[of binary64 0] by (simp add: binary64_def)

lemma precision64: "0 < precision binary64"
  by (simp add: binary64_def)

lemma round32_millionth:
  "round_to_format binary32 (1 / 1000000) = Num (8796093 / 8796093022208)"
  using round_to_format_eval[of "1 / 1000000" "- 20" binary32]
  by (simp add: binary32_def round_half_even_def Let_def)

lemma round32_overflow: "round_to_format binary32 (2 ^ 200) = PosInf"
  using round_to_format_eval[of "2 ^ 200" 200 binary32]
  by (simp add: binary32_def round_half_even_def Let_def)

lemma round32_tiny: "round_to_format binary32 (1 / 2 ^ 100) = Num (1 / 2 ^ 100)"
  using round_to_format_power2[of binary32 "- 100"]
  by (simp add: binary32_def power_int_minus_divide)

lemma round64_chain:
  "round_to_format binary64 (4503599627370497 / 4503599627370496)
     = Num (4503599627370497 / 4503599627370496)"
  "round_to_format binary64
     (20282409603651679431146506027009 / 20282409603651670423947251286016)
     = Num (2251799813685249 / 2251799813685248)"
  "round_to_format binary64 (11258999068426241 / 2251799813685248) = Num 5"
  "round_to_format binary64 (2251799813685249 / 11258999068426240)
     = Num (7205759403792797 / 36028797018963968)"
  "round_to_format binary64 (4 / 5) = Num (3602879701896397 / 4503599627370496)"
  using
    round_to_format_eval[of "4503599627370497 / 4503599627370496" 0 binary64]
    round_to_format_eval[of
      "20282409603651679431146506027009 / 20282409603651670423947251286016" 0 binary64]
    round_to_format_eval[of "11258999068426241 / 2251799813685248" 2 binary64]
    round_to_format_eval[of "2251799813685249 / 11258999068426240" "- 3" binary64]
    round_to_format_eval[of "4 / 5" "- 1" binary64]
  by (simp_all add: binary64_def round_half_even_def Let_def)

lemma round64_sum:
  "round_to_format binary64 (36028797018963973 / 36028797018963968)
     = Num (4503599627370497 / 4503599627370496)"
  using round_to_format_eval[of "36028797018963973 / 36028797018963968" 0 binary64]
  by (simp add: binary64_def round_half_even_def Let_def)

lemma smallest_quantum64:
  "(2::real) powi (emin binary64 - int (precision binary64)) \<le> 1 / 18014398509481984"
proof -
  have "(2::real) powi (- 1075) \<le> 2 powi (- 54)" by (intro power_int_increasing) simp_all
  also have "(2::real) powi (- 54) = 1 / 18014398509481984" by (simp add: power_int_minus_divide)
  finally show ?thesis by (simp add: binary64_def)
qed

lemma relative_error64:
  "(2::real) powi (- int (precision binary64)) = 1 / 9007199254740992"
  by (simp add: binary64_def power_int_minus_divide)

text \<open>Operations on values that are not negative (numbers from 0 on, the positive
  infinity and NaN) give values that are not negative.\<close>

lemma not_negative_round: "0 \<le> x \<Longrightarrow> not_negative (round_to_format F x)"
  using round_to_format_nonneg[of x F] by auto

lemma not_negative_float_of: "not_negative v \<Longrightarrow> not_negative (float_of v)"
  by (cases v) (simp_all add: float_of_def not_negative_round)

lemma not_negative_double_of: "not_negative v \<Longrightarrow> not_negative (double_of v)"
  by (cases v) (simp_all add: double_of_def not_negative_round)

lemma not_negative_fmul: "not_negative a \<Longrightarrow> not_negative b \<Longrightarrow> not_negative (fmul a b)"
  by (cases a; cases b) simp_all

lemma not_negative_fdiv: "not_negative a \<Longrightarrow> not_negative b \<Longrightarrow> not_negative (fdiv a b)"
  by (cases a; cases b) simp_all

lemma not_negative_fadd: "not_negative a \<Longrightarrow> not_negative b \<Longrightarrow> not_negative (fadd a b)"
  by (cases a; cases b) simp_all

lemma not_negative_square: "not_negative (fmul q q)"
  by (cases q) simp_all

lemma positive_not_negative: "fless (Num 0) v \<Longrightarrow> not_negative v"
  by (cases v) simp_all

lemma spectrum32_mul_not_negative:
  "list_all not_negative a \<Longrightarrow> list_all not_negative b \<Longrightarrow>
   list_all not_negative (spectrum32_mul a b)"
  unfolding spectrum32_mul_def
proof (induction a arbitrary: b)
  case Nil
  then show ?case by simp
next
  case (Cons x xs)
  then show ?case
    by (cases b) (simp_all add: fmul32_def not_negative_float_of not_negative_fmul)
qed

lemma spectrum32_div_not_negative:
  "list_all not_negative a \<Longrightarrow> not_negative p \<Longrightarrow> list_all not_negative (spectrum32_div a p)"
  unfolding spectrum32_div_def
  by (induction a) (simp_all add: fdiv32_def not_negative_float_of not_negative_fdiv)

lemma running_max_not_negative:
  "not_negative x \<Longrightarrow> list_all not_negative xs \<Longrightarrow>
   not_negative (foldl (\<lambda>value y. if fless value y then y else value) x xs)"
  by (induction xs arbitrary: x) simp_all

lemma max_value_not_negative: "list_all not_negative xs \<Longrightarrow> not_negative (max_value xs)"
  by (cases xs) (simp_all add: running_max_not_negative)

lemma std_min_not_negative: "not_negative m \<Longrightarrow> not_negative (std_min m (Num 1))"
  by (simp add: std_min_def)

section \<open>The loop and its iterations\<close>

text \<open>The loop returns a state exactly when some number of iterations ends in a break.\<close>

lemma trace_loop_SomeD:
  "trace_loop pt scn st = Some r \<Longrightarrow> \<exists>k. trace_steps k pt scn st = Break r"
proof (induction rule: trace_loop.raw_induct[rotated 1, consumes 1])
  case (1 f pt scn st r)
  show ?case
  proof (cases "trace_body pt scn st")
    case (Break st')
    with 1(2) have "trace_steps (Suc 0) pt scn st = Break r" by simp
    then show ?thesis by blast
  next
    case (Continue st')
    with 1(2) have "f pt scn st' = Some r" by simp
    from 1(1)[OF this] obtain k where "trace_steps k pt scn st' = Break r" by blast
    with Continue have "trace_steps (Suc k) pt scn st = Break r" by simp
    then show ?thesis by blast
  qed
qed

lemma trace_steps_SomeI:
  "trace_steps k pt scn st = Break r \<Longrightarrow> trace_loop pt scn st = Some r"
proof (induction k arbitrary: st)
  case 0
  then show ?case by simp
next
  case (Suc k)
  show ?case
  proof (cases "trace_body pt scn st")
    case (Break st')
    with Suc.prems show ?thesis by (subst trace_loop.simps) simp
  next
    case (Continue st')
    with Suc.prems have "trace_steps k pt scn st' = Break r" by simp
    from Suc.IH[OF this] Continue show ?thesis by (subst trace_loop.simps) simp
  qed
qed

text \<open>The definitions a run of the walk unfolds.\<close>

lemmas walk_defs =
  trace_body_def shade_vertex_def update_throughput_def next_bounce_def cutoff_retrace_def
  log_event_def intersector_trace_def HardPathLengthLimit_def initial_state_def Let_def
  fneq_def fge_def std_min_def pass_rr_def
  spectrum32_div_def spectrum32_mul_def fdiv32_def fmul32_def float_of_def

section \<open>Alpha masking\<close>

lemma shade_vertex_Continue:
  "shade_vertex pt io mat st = Continue st' \<Longrightarrow> path_length st' = path_length st + 1"
  by (auto simp: shade_vertex_def update_throughput_def next_bounce_def log_event_def Let_def
      split: if_splits)

text \<open>
  Claim C4. At a shading point with a material and a surface shader, and with the drawn
  sample \<open>s\<close> in \<open>[0,1)\<close>: if the alpha mask is 1 no sample is drawn and the body goes on to
  shade the vertex, whose only way back into the loop increments the path length; if it
  is 0 the body always re-traces the cutoff ray; if it lies strictly between 0 and 1 the
  cutoff ray is re-traced exactly when \<open>s \<ge> alpha\<close>. The state after the re-trace is the
  state before it with three changes: the shading point is the one the intersector finds
  for the cutoff ray, which starts at the shading point and has the direction and the time
  of the incoming ray; the iteration is the next one; the calls made are the drawing of
  the sample and the tracing of that ray. Path length, throughput and the mode and
  probability of the previous bounce are kept, and no callback of the visitor is called.
  On a re-trace, the walk goes on from that state: the next iterations of the loop, and
  its result, are the ones of the walk started there.
\<close>

theorem alpha_mask_retry:
  assumes "hit (shading_point_ptr st)"
    and "get_material (shading_point_ptr st) = Some mat"
    and "get_surface_shader mat"
    and "alpha_sample (scn (iteration st)) = Num s" and "0 \<le> s" and "s < 1"
  shows "(alpha_mask (scn (iteration st)) = Num 1 \<longrightarrow>
           trace_body pt scn st = shade_vertex pt (scn (iteration st)) mat st
           \<and> (\<forall>st'. trace_body pt scn st = Continue st' \<longrightarrow> path_length st' = path_length st + 1))
    \<and> (alpha_mask (scn (iteration st)) = Num 0 \<longrightarrow>
           trace_body pt scn st =
             Continue (cutoff_retrace (scn (iteration st)) (log_event (Next_double2 (Num s)) st)))
    \<and> (alpha_mask (scn (iteration st)) = Num a \<and> 0 < a \<and> a < 1 \<longrightarrow>
           trace_body pt scn st =
             (if a \<le> s
              then Continue (cutoff_retrace (scn (iteration st)) (log_event (Next_double2 (Num s)) st))
              else shade_vertex pt (scn (iteration st)) mat (log_event (Next_double2 (Num s)) st)))
    \<and> path_length (cutoff_retrace io (log_event (Next_double2 (Num s)) st)) = path_length st
    \<and> throughput (cutoff_retrace io (log_event (Next_double2 (Num s)) st)) = throughput st
    \<and> events (cutoff_retrace io (log_event (Next_double2 (Num s)) st)) =
             events st @ [Next_double2 (Num s),
               Intersector_trace \<lparr>m_org = get_point (shading_point_ptr st),
                                  m_dir = m_dir (get_ray (shading_point_ptr st)),
                                  m_time = m_time (get_ray (shading_point_ptr st))\<rparr>]
    \<and> (\<forall>st1 st'. shade_vertex pt (scn (iteration st)) mat st1 = Continue st' \<longrightarrow>
           path_length st' = path_length st1 + 1)
    \<and> cutoff_retrace io (log_event (Next_double2 (Num s)) st) =
         \<lparr>shading_point_ptr =
            (next_hit io)\<lparr>get_ray :=
              \<lparr>m_org = get_point (shading_point_ptr st),
               m_dir = m_dir (get_ray (shading_point_ptr st)),
               m_time = m_time (get_ray (shading_point_ptr st))\<rparr>\<rparr>,
          throughput = throughput st,
          path_length = path_length st,
          bsdf_mode = bsdf_mode st,
          bsdf_prob = bsdf_prob st,
          iteration = Suc (iteration st),
          events = events st @ [Next_double2 (Num s),
               Intersector_trace \<lparr>m_org = get_point (shading_point_ptr st),
                                  m_dir = m_dir (get_ray (shading_point_ptr st)),
                                  m_time = m_time (get_ray (shading_point_ptr st))\<rparr>]\<rparr>
    \<and> (alpha_mask (scn (iteration st)) = Num 0
         \<or> (alpha_mask (scn (iteration st)) = Num a \<and> 0 < a \<and> a \<le> s) \<longrightarrow>
        (\<forall>k. trace_steps (Suc k) pt scn st =
              trace_steps k pt scn
                (cutoff_retrace (scn (iteration st)) (log_event (Next_double2 (Num s)) st)))
        \<and> trace_loop pt scn st =
            trace_loop pt scn
              (cutoff_retrace (scn (iteration st)) (log_event (Next_double2 (Num s)) st)))"
proof -
  let ?io = "scn (iteration st)"
  let ?re = "cutoff_retrace ?io (log_event (Next_double2 (Num s)) st)"
  have body0: "trace_body pt scn st = Continue ?re" if "alpha_mask ?io = Num 0"
    using assms that by (simp add: trace_body_def Let_def fge_def)
  have bodya: "trace_body pt scn st = Continue ?re"
    if "alpha_mask ?io = Num a" "0 < a" "a \<le> s"
    using assms that by (auto simp: trace_body_def Let_def fge_def)
  have go_on: "(\<forall>k. trace_steps (Suc k) pt scn st = trace_steps k pt scn ?re)
        \<and> trace_loop pt scn st = trace_loop pt scn ?re"
    if "trace_body pt scn st = Continue ?re"
    using that by (simp add: trace_loop.simps[of pt scn st])
  have state: "cutoff_retrace io (log_event (Next_double2 (Num s)) st) =
         \<lparr>shading_point_ptr =
            (next_hit io)\<lparr>get_ray :=
              \<lparr>m_org = get_point (shading_point_ptr st),
               m_dir = m_dir (get_ray (shading_point_ptr st)),
               m_time = m_time (get_ray (shading_point_ptr st))\<rparr>\<rparr>,
          throughput = throughput st,
          path_length = path_length st,
          bsdf_mode = bsdf_mode st,
          bsdf_prob = bsdf_prob st,
          iteration = Suc (iteration st),
          events = events st @ [Next_double2 (Num s),
               Intersector_trace \<lparr>m_org = get_point (shading_point_ptr st),
                                  m_dir = m_dir (get_ray (shading_point_ptr st)),
                                  m_time = m_time (get_ray (shading_point_ptr st))\<rparr>]\<rparr>"
    by (simp add: cutoff_retrace_def log_event_def intersector_trace_def Let_def)
  have rest: "(alpha_mask ?io = Num 1 \<longrightarrow>
           trace_body pt scn st = shade_vertex pt ?io mat st
           \<and> (\<forall>st'. trace_body pt scn st = Continue st' \<longrightarrow> path_length st' = path_length st + 1))
    \<and> (alpha_mask ?io = Num a \<and> 0 < a \<and> a < 1 \<longrightarrow>
           trace_body pt scn st =
             (if a \<le> s then Continue ?re
              else shade_vertex pt ?io mat (log_event (Next_double2 (Num s)) st)))
    \<and> path_length (cutoff_retrace io (log_event (Next_double2 (Num s)) st)) = path_length st
    \<and> throughput (cutoff_retrace io (log_event (Next_double2 (Num s)) st)) = throughput st
    \<and> events (cutoff_retrace io (log_event (Next_double2 (Num s)) st)) =
             events st @ [Next_double2 (Num s),
               Intersector_trace \<lparr>m_org = get_point (shading_point_ptr st),
                                  m_dir = m_dir (get_ray (shading_point_ptr st)),
                                  m_time = m_time (get_ray (shading_point_ptr st))\<rparr>]
    \<and> (\<forall>st1 st'. shade_vertex pt ?io mat st1 = Continue st' \<longrightarrow>
           path_length st' = path_length st1 + 1)"
    using assms
    by (auto simp: trace_body_def Let_def fge_def cutoff_retrace_def log_event_def
        dest: shade_vertex_Continue)
  from body0 bodya go_on state rest show ?thesis by blast
qed

text \<open>The theorem at a half-transparent surface with the sample 3/4: the cutoff ray is
  traced from the surface point down the same direction, and the walk goes on from the
  point it finds.\<close>

theorem alpha_mask_retry_witness:
  "hit (shading_point_ptr (initial_state plain_tracer 3 surface_hit))
   \<and> get_material (shading_point_ptr (initial_state plain_tracer 3 surface_hit)) = Some bound_material
   \<and> get_surface_shader bound_material
   \<and> alpha_sample half_transparent_io = Num (3 / 4)
   \<and> alpha_mask half_transparent_io = Num (1 / 2)
   \<and> trace_body plain_tracer (\<lambda>k. half_transparent_io) (initial_state plain_tracer 3 surface_hit) =
       Continue (cutoff_retrace half_transparent_io
         (log_event (Next_double2 (Num (3 / 4))) (initial_state plain_tracer 3 surface_hit)))
   \<and> events (cutoff_retrace half_transparent_io
         (log_event (Next_double2 (Num (3 / 4))) (initial_state plain_tracer 3 surface_hit))) =
       [Next_double2 (Num (3 / 4)),
        Intersector_trace \<lparr>m_org = (Num 0, Num 0, Num (- 1)), m_dir = (Num 0, Num 0, Num (- 1)),
                           m_time = Num 0\<rparr>]
   \<and> shading_point_ptr (cutoff_retrace half_transparent_io
         (log_event (Next_double2 (Num (3 / 4))) (initial_state plain_tracer 3 surface_hit))) =
       surface_hit\<lparr>get_ray := \<lparr>m_org = (Num 0, Num 0, Num (- 1)),
                                m_dir = (Num 0, Num 0, Num (- 1)), m_time = Num 0\<rparr>\<rparr>
   \<and> iteration (cutoff_retrace half_transparent_io
         (log_event (Next_double2 (Num (3 / 4))) (initial_state plain_tracer 3 surface_hit))) = 1
   \<and> trace_steps 2 plain_tracer (\<lambda>k. half_transparent_io)
         (initial_state plain_tracer 3 surface_hit) =
       trace_steps 1 plain_tracer (\<lambda>k. half_transparent_io)
         (cutoff_retrace half_transparent_io
           (log_event (Next_double2 (Num (3 / 4))) (initial_state plain_tracer 3 surface_hit)))"
  using alpha_mask_retry [of "initial_state plain_tracer 3 surface_hit" bound_material
      "\<lambda>k. half_transparent_io" "3 / 4" plain_tracer "1 / 2" half_transparent_io]
  by (simp add: initial_state_def surface_hit_def bound_material_def half_transparent_io_def
      diffuse_io_def down_ray_def numeral_2_eq_2)

section \<open>What one iteration does to the path length\<close>

lemma trace_body_Continue:
  assumes "trace_body pt scn st = Continue st'"
  shows "iteration st' = Suc (iteration st) \<and>
         (path_length st' = path_length st \<and> takes_cutoff (scn (iteration st))
          \<or> path_length st' = Suc (path_length st) \<and> path_length st < HardPathLengthLimit)"
  using assms
  by (auto simp: trace_body_def shade_vertex_def update_throughput_def next_bounce_def
      cutoff_retrace_def log_event_def takes_cutoff_def Let_def split: option.splits if_splits)

lemma trace_body_Break:
  assumes "trace_body pt scn st = Break st'"
  shows "path_length st' = path_length st"
  using assms
  by (auto simp: trace_body_def shade_vertex_def update_throughput_def next_bounce_def
      cutoff_retrace_def log_event_def Let_def split: option.splits if_splits)

lemma next_bounce_throughput:
  "throughput (exit_state (next_bounce pt io st)) = throughput st"
  by (simp add: next_bounce_def log_event_def Let_def)

text \<open>When the body reaches the throughput update: the state it hands over.\<close>

lemma trace_body_reaches_update:
  assumes "hit (shading_point_ptr st)"
    and "get_material (shading_point_ptr st) = Some mat"
    and "get_surface_shader mat" and "get_bsdf mat"
    and "\<not> (fless (alpha_mask (scn (iteration st))) (Num 1)
             \<and> fge (alpha_sample (scn (iteration st))) (alpha_mask (scn (iteration st))))"
    and "visit_vertex_result (scn (iteration st))"
    and "sampled_mode (scn (iteration st)) \<in> ScatteringModesMask pt"
  shows "trace_body pt scn st =
     (let io = scn (iteration st);
          st0 = (if fless (alpha_mask io) (Num 1)
                 then log_event (Next_double2 (alpha_sample io)) st else st);
          st1 = log_event (Visit_vertex (normalize (vneg (m_dir (get_ray (shading_point_ptr st)))))
                             (bsdf_mode st) (bsdf_prob st) (throughput st)) st0
      in update_throughput pt io (st1\<lparr>bsdf_prob := sampled_prob io, bsdf_mode := sampled_mode io\<rparr>))"
  using assms
  by (auto simp: trace_body_def shade_vertex_def Let_def log_event_def)

section \<open>Russian roulette and the Dirac delta\<close>







section \<open>Termination\<close>

lemma bounded_retries_steps:
  assumes late: "\<forall>k\<ge>N. \<not> takes_cutoff (scn k)"
  shows "path_length st \<le> HardPathLengthLimit \<Longrightarrow>
         \<exists>k r. trace_steps k pt scn st = Break r \<and> path_length r \<le> HardPathLengthLimit"
proof (induction "(N - iteration st) + (HardPathLengthLimit - path_length st)"
    arbitrary: st rule: less_induct)
  case less
  show ?case
  proof (cases "trace_body pt scn st")
    case (Break st')
    then have "trace_steps (Suc 0) pt scn st = Break st'" by simp
    moreover from Break less.prems have "path_length st' \<le> HardPathLengthLimit"
      by (simp add: trace_body_Break)
    ultimately show ?thesis by blast
  next
    case (Continue st')
    note c = trace_body_Continue[OF Continue]
    have it: "iteration st' = Suc (iteration st)" using c by simp
    have le: "path_length st' \<le> HardPathLengthLimit"
      using c less.prems by auto
    have "iteration st < N" if "takes_cutoff (scn (iteration st))"
      using late that by (meson not_le)
    with c it have dec: "(N - iteration st') + (HardPathLengthLimit - path_length st')
            < (N - iteration st) + (HardPathLengthLimit - path_length st)"
      by auto
    from less.hyps[OF dec le] obtain k r where
      "trace_steps k pt scn st' = Break r" "path_length r \<le> HardPathLengthLimit" by blast
    with Continue have "trace_steps (Suc k) pt scn st = Break r" by simp
    with \<open>path_length r \<le> HardPathLengthLimit\<close> show ?thesis by blast
  qed
qed

text \<open>
  Claim C2, as amended. The hard limit bounds the path length, not the number of
  iterations: the re-trace of a cutoff ray goes back into the loop without a test. When the
  transparency-retry branch is taken only finitely often (from some iteration \<open>N\<close> on the
  alpha test never asks for it), the walk returns, and the path length it returns is at
  most 10000.
\<close>

theorem trace_terminates_with_finitely_many_retries:
  assumes "\<forall>k\<ge>N. \<not> takes_cutoff (scn k)"
  shows "\<exists>r. trace pt n scn sp = Some r \<and> path_length r \<le> HardPathLengthLimit"
proof -
  have "path_length (initial_state pt n sp) \<le> HardPathLengthLimit"
    by (simp add: initial_state_def HardPathLengthLimit_def)
  from bounded_retries_steps[OF assms this] obtain k r where
    "trace_steps k pt scn (initial_state pt n sp) = Break r" "path_length r \<le> HardPathLengthLimit"
    by blast
  then show ?thesis unfolding trace_def by (blast intro: trace_steps_SomeI)
qed

text \<open>The theorem on opaque surfaces, where the branch is never taken.\<close>

theorem trace_terminates_with_finitely_many_retries_witness:
  "(\<forall>k. \<not> takes_cutoff ((\<lambda>k. diffuse_io) k))
   \<and> (\<exists>r. trace plain_tracer 3 (\<lambda>k. diffuse_io) surface_hit = Some r
          \<and> path_length r \<le> HardPathLengthLimit)"
proof -
  have h: "\<forall>k\<ge>0. \<not> takes_cutoff ((\<lambda>k. diffuse_io) k)"
    by (simp add: takes_cutoff_def diffuse_io_def)
  from h trace_terminates_with_finitely_many_retries [OF h, of plain_tracer 3 surface_hit]
  show ?thesis by blast
qed

text \<open>Behind a fully transparent surface that the cutoff ray hits again and again, no
  number of iterations ends in a break, whatever the tracer.\<close>

lemma endless_retries_steps:
  "hit (shading_point_ptr st) \<Longrightarrow> get_material (shading_point_ptr st) = Some bound_material \<Longrightarrow>
   trace_steps k pt (\<lambda>k. transparent_io) st \<noteq> Break r"
proof (induction k arbitrary: st)
  case 0
  then show ?case by simp
next
  case (Suc k)
  let ?st' = "cutoff_retrace transparent_io (log_event (Next_double2 (Num (3 / 4))) st)"
  have body: "trace_body pt (\<lambda>k. transparent_io) st = Continue ?st'"
    using Suc.prems
    by (simp add: trace_body_def transparent_io_def diffuse_io_def bound_material_def fge_def
        Let_def)
  have "hit (shading_point_ptr ?st')" "get_material (shading_point_ptr ?st') = Some bound_material"
    by (simp_all add: cutoff_retrace_def log_event_def intersector_trace_def transparent_io_def
        surface_hit_def Let_def)
  from Suc.IH[OF this] body show ?case by simp
qed

lemma endless_retries_loop:
  assumes "hit sp" and "get_material sp = Some bound_material"
  shows "trace pt n (\<lambda>k. transparent_io) sp = None"
proof (cases "trace pt n (\<lambda>k. transparent_io) sp")
  case None
  then show ?thesis .
next
  case (Some r)
  then obtain k where
    "trace_steps k pt (\<lambda>k. transparent_io) (initial_state pt n sp) = Break r"
    unfolding trace_def by (blast dest: trace_loop_SomeD)
  moreover have "hit (shading_point_ptr (initial_state pt n sp))"
    "get_material (shading_point_ptr (initial_state pt n sp)) = Some bound_material"
    using assms by (simp_all add: initial_state_def)
  ultimately show ?thesis using endless_retries_steps by blast
qed

text \<open>Claim C2 as stated fails: behind a fully transparent surface that the cutoff ray
  hits again and again, the walk never returns.\<close>

theorem trace_retries_forever:
  "trace plain_tracer 3 (\<lambda>k. transparent_io) surface_hit = None"
  by (rule endless_retries_loop) (simp_all add: surface_hit_def)

section \<open>A single bounce\<close>







section \<open>The throughput\<close>

lemma update_throughput_not_negative:
  assumes "list_all not_negative (throughput st)" and "nonnegative_sample pt io"
  shows "list_all not_negative (throughput (exit_state (update_throughput pt io st)))"
proof -
  define v where "v = (if fneq (sampled_prob io) (DiracDelta pt)
           then spectrum32_div (sampled_value io) (float_of (sampled_prob io))
           else sampled_value io)"
  have "not_negative (float_of (sampled_prob io))" if "fneq (sampled_prob io) (DiracDelta pt)"
    using that assms(2) unfolding nonnegative_sample_def fneq_def
    by (auto intro: not_negative_float_of positive_not_negative)
  then have v: "list_all not_negative v"
    using assms(2) unfolding v_def nonnegative_sample_def
    by (auto intro: spectrum32_div_not_negative)
  then have t: "list_all not_negative (spectrum32_mul (throughput st) v)"
    using assms(1) by (rule spectrum32_mul_not_negative[rotated])
  have p: "not_negative (float_of (std_min (max_value v) (Num 1)))"
    using v by (intro not_negative_float_of std_min_not_negative max_value_not_negative)
  show ?thesis
    using t p
    unfolding update_throughput_def v_def[symmetric] Let_def
    by (auto simp: next_bounce_throughput log_event_def intro: spectrum32_div_not_negative)
qed

lemma trace_body_not_negative:
  assumes "list_all not_negative (throughput st)"
    and "nonnegative_sample pt (scn (iteration st))"
  shows "list_all not_negative (throughput (exit_state (trace_body pt scn st)))"
proof -
  have "list_all not_negative
          (throughput (exit_state (shade_vertex pt (scn (iteration st)) mat st1)))"
    if "throughput st1 = throughput st" for mat st1
    using update_throughput_not_negative[OF _ assms(2)] assms(1) that
    by (simp add: shade_vertex_def log_event_def Let_def)
  then show ?thesis
    using assms(1)
    by (simp add: trace_body_def cutoff_retrace_def log_event_def Let_def split: option.splits)
qed

lemma trace_steps_not_negative:
  assumes "\<forall>k. nonnegative_sample pt (scn k)"
  shows "list_all not_negative (throughput st) \<Longrightarrow>
         list_all not_negative (throughput (exit_state (trace_steps k pt scn st)))"
proof (induction k arbitrary: st)
  case 0
  then show ?case by simp
next
  case (Suc k)
  from assms have "nonnegative_sample pt (scn (iteration st))" by simp
  with Suc.prems
  have "list_all not_negative (throughput (exit_state (trace_body pt scn st)))"
    by (rule trace_body_not_negative)
  with Suc.IH show ?case by (cases "trace_body pt scn st") auto
qed

text \<open>
  Claim C1, as amended. The walk has no guard against NaN or infinity, and float
  arithmetic overflows, so the throughput need not stay finite. What holds is its sign:
  when no component of a sampled BSDF value is negative, every sampled probability is the
  Dirac delta or positive, and no sample drawn for Russian roulette is negative, then no
  component of the throughput is negative after any number of iterations, nor in the state
  the walk returns: each component is a number from 0 on, the positive infinity, or NaN.
\<close>

theorem throughput_never_negative:
  assumes "\<forall>k. nonnegative_sample pt (scn k)"
  shows "(\<forall>k. list_all not_negative
               (throughput (exit_state (trace_steps k pt scn (initial_state pt n sp)))))
       \<and> (\<forall>r. trace pt n scn sp = Some r \<longrightarrow> list_all not_negative (throughput r))"
proof -
  have init: "list_all not_negative (throughput (initial_state pt n sp))"
    by (simp add: initial_state_def list_all_iff)
  have steps: "list_all not_negative
      (throughput (exit_state (trace_steps k pt scn (initial_state pt n sp))))" for k
    by (rule trace_steps_not_negative[OF assms init])
  have "list_all not_negative (throughput r)" if "trace pt n scn sp = Some r" for r
  proof -
    from that obtain k where "trace_steps k pt scn (initial_state pt n sp) = Break r"
      unfolding trace_def by (blast dest: trace_loop_SomeD)
    with steps[of k] show ?thesis by simp
  qed
  with steps show ?thesis by blast
qed

text \<open>The theorem on an opaque diffuse surface followed by a miss.\<close>

theorem throughput_never_negative_witness:
  "(\<forall>k. nonnegative_sample plain_tracer ((\<lambda>k. diffuse_io) k))
   \<and> map_option throughput (trace plain_tracer 3 (\<lambda>k. diffuse_io) surface_hit)
       = Some [Num (1 / 2), Num (1 / 2), Num (1 / 2)]
   \<and> list_all not_negative [Num (1 / 2), Num (1 / 2), Num (1 / 2)]"
proof -
  have h: "\<forall>k. nonnegative_sample plain_tracer ((\<lambda>k. diffuse_io) k)"
    by (simp add: nonnegative_sample_def diffuse_io_def plain_tracer_def)
  have "\<exists>r. trace_steps 2 plain_tracer (\<lambda>k. diffuse_io) (initial_state plain_tracer 3 surface_hit)
          = Break r \<and> throughput r = [Num (1 / 2), Num (1 / 2), Num (1 / 2)]"
    by (simp add: numeral_2_eq_2 numeral_3_eq_3 walk_defs round32_values
        plain_tracer_def diffuse_io_def surface_hit_def bound_material_def miss_def)
  then have run: "map_option throughput (trace plain_tracer 3 (\<lambda>k. diffuse_io) surface_hit)
       = Some [Num (1 / 2), Num (1 / 2), Num (1 / 2)]"
    unfolding trace_def by (auto dest: trace_steps_SomeI)
  from h run throughput_never_negative [OF h, of 3 surface_hit]
  show ?thesis by auto
qed

text \<open>Claim C1 as stated fails: a BSDF that returns an infinite value with the
  probability \<open>10\<^sup>-\<^sup>6\<close> makes the throughput infinite.\<close>

theorem throughput_becomes_infinite:
  "map_option throughput (trace plain_tracer 3 (\<lambda>k. blowup_io) surface_hit)
     = Some [PosInf, PosInf, PosInf]"
proof -
  have "\<exists>r. trace_steps 2 plain_tracer (\<lambda>k. blowup_io) (initial_state plain_tracer 3 surface_hit)
          = Break r \<and> throughput r = [PosInf, PosInf, PosInf]"
    by (simp add: numeral_2_eq_2 numeral_3_eq_3 walk_defs round32_millionth
        plain_tracer_def blowup_io_def diffuse_io_def surface_hit_def bound_material_def miss_def)
  then show ?thesis
    unfolding trace_def by (auto dest: trace_steps_SomeI)
qed

text \<open>Finite samples do not keep the throughput finite either: the value \<open>2\<^bsup>100\<^esup>\<close> with
  the probability \<open>2\<^bsup>-100\<^esup>\<close> overflows the float format.\<close>

lemma finite_samples_overflow:
  "map_option throughput (trace plain_tracer 3 (\<lambda>k. overflow_io) surface_hit)
     = Some [PosInf, PosInf, PosInf]"
proof -
  have "\<exists>r. trace_steps 2 plain_tracer (\<lambda>k. overflow_io) (initial_state plain_tracer 3 surface_hit)
          = Break r \<and> throughput r = [PosInf, PosInf, PosInf]"
    by (simp add: numeral_2_eq_2 numeral_3_eq_3 walk_defs round32_tiny[simplified]
        round32_overflow[simplified] plain_tracer_def overflow_io_def diffuse_io_def surface_hit_def bound_material_def miss_def)
  then show ?thesis
    unfolding trace_def by (auto dest: trace_steps_SomeI)
qed

section \<open>Image-based lighting\<close>

text \<open>The quotient \<open>a / (a + b)\<close> of two doubles that are not negative, computed in double
  arithmetic, is at most 1: the sum is rounded to a double that is at least \<open>a\<close>, and the
  quotient to a double that is at most 1.\<close>

lemma double_of_double_value:
  assumes "not_negative v"
  shows "double_value (double_of v)"
proof (cases v)
  case (Num x)
  with assms have x: "0 \<le> x" by simp
  show ?thesis
  proof (cases "round_to_format binary64 x")
    case (Num y)
    from round_to_format_idem[OF x precision64 Num] round_to_format_nonneg[OF x, of binary64] Num
    show ?thesis using \<open>v = Num x\<close> by (simp add: double_of_def double_value_def)
  next
    case PosInf
    then show ?thesis using \<open>v = Num x\<close> by (simp add: double_of_def double_value_def)
  next
    case NegInf
    with round_to_format_nonneg[OF x, of binary64] show ?thesis by simp
  next
    case NaN
    with round_to_format_nonneg[OF x, of binary64] show ?thesis by simp
  qed
qed (use assms in \<open>simp_all add: double_of_def double_value_def\<close>)

lemma quotient_at_most_one:
  assumes "double_value a" and "double_value b"
  shows "\<not> fless (Num 1) (fdiv64 a (fadd64 a b))"
proof (cases a)
  case (Num \<alpha>)
  with assms(1) have a0: "0 \<le> \<alpha>" and afix: "round_to_format binary64 \<alpha> = Num \<alpha>"
    by (simp_all add: double_value_def)
  show ?thesis
  proof (cases b)
    case (Num \<beta>)
    with assms(2) have b0: "0 \<le> \<beta>" by (simp add: double_value_def)
    show ?thesis
    proof (cases "round_to_format binary64 (\<alpha> + \<beta>)")
      case (Num \<delta>)
      from round_to_format_mono[OF a0 _ precision64 Num] b0 afix
      have le: "\<alpha> \<le> \<delta>" by auto
      show ?thesis
      proof (cases "\<delta> = 0")
        case True
        with le a0 have "\<alpha> = 0" by simp
        with True Num \<open>a = Num \<alpha>\<close> \<open>b = Num \<beta>\<close> show ?thesis
          by (simp add: fdiv64_def fadd64_def double_of_def)
      next
        case False
        with le a0 have d: "0 < \<delta>" by simp
        have q0: "0 \<le> \<alpha> / \<delta>" and q1: "\<alpha> / \<delta> \<le> 1" using a0 le d by simp_all
        from round_to_format_mono[OF q0 q1 precision64 round64_one]
        obtain y where "round_to_format binary64 (\<alpha> / \<delta>) = Num y" "y \<le> 1" by blast
        with False Num \<open>a = Num \<alpha>\<close> \<open>b = Num \<beta>\<close> show ?thesis
          by (simp add: fdiv64_def fadd64_def double_of_def)
      qed
    next
      case PosInf
      with \<open>a = Num \<alpha>\<close> \<open>b = Num \<beta>\<close> show ?thesis
        by (simp add: fdiv64_def fadd64_def double_of_def round_to_format_def)
    next
      case NegInf
      with round_to_format_nonneg[of "\<alpha> + \<beta>" binary64] a0 b0 show ?thesis by simp
    next
      case NaN
      with round_to_format_nonneg[of "\<alpha> + \<beta>" binary64] a0 b0 show ?thesis by simp
    qed
  next
    case PosInf
    with \<open>a = Num \<alpha>\<close> show ?thesis
      by (simp add: fdiv64_def fadd64_def double_of_def round_to_format_def)
  next
    case NegInf
    with assms(2) show ?thesis by (simp add: double_value_def)
  next
    case NaN
    with \<open>a = Num \<alpha>\<close> show ?thesis by (simp add: fdiv64_def fadd64_def double_of_def)
  qed
next
  case PosInf
  with assms(2) show ?thesis
    by (cases b) (simp_all add: fdiv64_def fadd64_def double_of_def double_value_def)
next
  case NegInf
  with assms(1) show ?thesis by (simp add: double_value_def)
next
  case NaN
  then show ?thesis by (simp add: fdiv64_def fadd64_def double_of_def)
qed

lemma mis_power2_at_most_one: "\<not> fless (Num 1) (mis_power2 q1 q2)"
  unfolding mis_power2_def fmul64_def
  by (intro quotient_at_most_one double_of_double_value not_negative_square)

lemma mis_power2_not_negative: "not_negative (mis_power2 q1 q2)"
  unfolding mis_power2_def fmul64_def fdiv64_def fadd64_def
  by (intro not_negative_double_of not_negative_fdiv not_negative_fadd not_negative_square)

text \<open>The two quotients \<open>a / (a + b)\<close> and \<open>b / (b + a)\<close>, computed in double arithmetic,
  sum to at most \<open>1 + 2\<^bsup>-51\<^esup>\<close>: the rounded sum \<open>d\<close> is at least \<open>(a + b) (1 - 2\<^bsup>-53\<^esup>)\<close>,
  and each rounded quotient is at most the exact one times \<open>1 + 2\<^bsup>-53\<^esup>\<close>, plus half
  the smallest quantum.\<close>

lemma rounded_sum_lower_bound:
  assumes "0 < precision F" and "0 \<le> a" and "0 \<le> b"
    and "round_to_format F a = Num a" and "round_to_format F b = Num b"
    and "round_to_format F (a + b) = Num d"
  shows "(a + b) * (1 - 2 powi (- int (precision F))) \<le> d"
proof (cases "a + b = 0")
  case True
  with assms(6) show ?thesis by (simp add: round_to_format_def)
next
  case False
  with assms(2,3) have pos: "0 < a + b" by simp
  from False assms(6) have d: "d = nearest F (a + b)"
    by (auto simp: round_to_format_def split: if_splits)
  have u: "(0::real) \<le> 2 powi (- int (precision F))" by simp
  show ?thesis
  proof (cases "2 powi emin F \<le> a + b")
    case True
    from nearest_relative_error[OF assms(1) True] d
    show ?thesis by (simp add: algebra_simps abs_le_iff)
  next
    case False
    from format_value_multiple[OF assms(4)] format_value_multiple[OF assms(5)]
    obtain n m where "a = of_int n * 2 powi (emin F - (int (precision F) - 1))"
      "b = of_int m * 2 powi (emin F - (int (precision F) - 1))" by blast
    then have "a + b = of_int (n + m) * 2 powi (emin F - (int (precision F) - 1))"
      by (simp add: algebra_simps)
    with nearest_subnormal_exact[OF pos, of F "n + m"] False d have "d = a + b" by simp
    moreover have "0 \<le> (a + b) * 2 powi (- int (precision F))"
      using pos by (intro mult_nonneg_nonneg) simp_all
    then have "(a + b) * (1 - 2 powi (- int (precision F))) \<le> a + b"
      by (simp only: right_diff_distrib mult_1_right)
    ultimately show ?thesis by simp
  qed
qed

lemma rounded_upper_bound:
  assumes "0 < precision F" and "0 \<le> x" and "round_to_format F x = Num y"
  shows "y \<le> x * (1 + 2 powi (- int (precision F))) + 2 powi (emin F - int (precision F))"
proof (cases "x = 0")
  case True
  with assms(3) show ?thesis by (simp add: round_to_format_def)
next
  case False
  with assms(2) have pos: "0 < x" by simp
  from False assms(3) have y: "y = nearest F x"
    by (auto simp: round_to_format_def split: if_splits)
  show ?thesis
  proof (cases "2 powi emin F \<le> x")
    case True
    from nearest_relative_error[OF assms(1) True] y
    have "y \<le> x * (1 + 2 powi (- int (precision F)))" by (simp add: algebra_simps abs_le_iff)
    moreover have "(0::real) \<le> 2 powi (emin F - int (precision F))" by simp
    ultimately show ?thesis by linarith
  next
    case False
    then have q: "quantum_exponent F x = emin F - (int (precision F) - 1)"
      using subnormal_quantum[OF pos] by simp
    have "(2::real) powi (emin F - (int (precision F) - 1)) / 2 = 2 powi (emin F - int (precision F))"
      using power_int_add[of "2::real" "emin F - int (precision F)" 1] by (simp add: algebra_simps)
    with nearest_error[of F x] q y have "y \<le> x + 2 powi (emin F - int (precision F))"
      by (simp add: abs_le_iff)
    moreover have "0 \<le> x * 2 powi (- int (precision F))" using pos by simp
    ultimately show ?thesis by (simp add: algebra_simps)
  qed
qed

lemma weights_sum_bound:
  assumes "double_value a" and "double_value b"
  shows "\<not> fless (Num (1 + 1 / 2 ^ 51)) (fadd (fdiv64 a (fadd64 a b)) (fdiv64 b (fadd64 b a)))"
proof (cases a)
  case (Num \<alpha>)
  with assms(1) have a0: "0 \<le> \<alpha>" and afix: "round_to_format binary64 \<alpha> = Num \<alpha>"
    by (simp_all add: double_value_def)
  show ?thesis
  proof (cases b)
    case (Num \<beta>)
    with assms(2) have b0: "0 \<le> \<beta>" and bfix: "round_to_format binary64 \<beta> = Num \<beta>"
      by (simp_all add: double_value_def)
    show ?thesis
    proof (cases "round_to_format binary64 (\<alpha> + \<beta>)")
      case (Num \<delta>)
      note sum = this
      then have sum': "round_to_format binary64 (\<beta> + \<alpha>) = Num \<delta>" by (simp add: add.commute)
      from rounded_sum_lower_bound[OF precision64 a0 b0 afix bfix sum]
      have low: "(\<alpha> + \<beta>) * (1 - 1 / 9007199254740992) \<le> \<delta>"
        by (simp only: relative_error64)
      show ?thesis
      proof (cases "\<delta> = 0")
        case True
        with low a0 b0 have "\<alpha> = 0" "\<beta> = 0" by simp_all
        with True sum sum' \<open>a = Num \<alpha>\<close> \<open>b = Num \<beta>\<close> show ?thesis
          by (simp add: fdiv64_def fadd64_def double_of_def)
      next
        case False
        from round_to_format_mono[OF a0 _ precision64 sum] b0 afix
        have a_le: "\<alpha> \<le> \<delta>" by auto
        from round_to_format_mono[OF b0 _ precision64 sum] a0 bfix
        have b_le: "\<beta> \<le> \<delta>" by auto
        from False a_le a0 have d: "0 < \<delta>" by simp
        have qa: "0 \<le> \<alpha> / \<delta>" "\<alpha> / \<delta> \<le> 1" and qb: "0 \<le> \<beta> / \<delta>" "\<beta> / \<delta> \<le> 1"
          using a0 b0 a_le b_le d by simp_all
        from round_to_format_mono[OF qa precision64 round64_one]
        obtain y1 where y1: "round_to_format binary64 (\<alpha> / \<delta>) = Num y1" by blast
        from round_to_format_mono[OF qb precision64 round64_one]
        obtain y2 where y2: "round_to_format binary64 (\<beta> / \<delta>) = Num y2" by blast
        from rounded_upper_bound[OF precision64 qa(1) y1] smallest_quantum64
        have u1: "y1 \<le> \<alpha> / \<delta> * (1 + 1 / 9007199254740992) + 1 / 18014398509481984"
          by (simp only: relative_error64)
        from rounded_upper_bound[OF precision64 qb(1) y2] smallest_quantum64
        have u2: "y2 \<le> \<beta> / \<delta> * (1 + 1 / 9007199254740992) + 1 / 18014398509481984"
          by (simp only: relative_error64)
        have "(\<alpha> + \<beta>) * (1 - 1 / 9007199254740992) / \<delta> \<le> 1" using low d by simp
        then have r: "(\<alpha> / \<delta> + \<beta> / \<delta>) * (1 - 1 / 9007199254740992) \<le> 1"
          by (simp add: add_divide_distrib)
        from u1 u2 r qa qb have "y1 + y2 \<le> 1 + 1 / 2 ^ 51" by simp
        with False sum sum' y1 y2 \<open>a = Num \<alpha>\<close> \<open>b = Num \<beta>\<close> show ?thesis
          by (simp add: fdiv64_def fadd64_def double_of_def)
      qed
    next
      case PosInf
      then have "round_to_format binary64 (\<beta> + \<alpha>) = PosInf" by (simp add: add.commute)
      with PosInf \<open>a = Num \<alpha>\<close> \<open>b = Num \<beta>\<close> show ?thesis
        by (simp add: fdiv64_def fadd64_def double_of_def round_to_format_zero)
    next
      case NegInf
      with round_to_format_nonneg[of "\<alpha> + \<beta>" binary64] a0 b0 show ?thesis by simp
    next
      case NaN
      with round_to_format_nonneg[of "\<alpha> + \<beta>" binary64] a0 b0 show ?thesis by simp
    qed
  next
    case PosInf
    with \<open>a = Num \<alpha>\<close> show ?thesis
      by (simp add: fdiv64_def fadd64_def double_of_def round_to_format_zero)
  next
    case NegInf
    with assms(2) show ?thesis by (simp add: double_value_def)
  next
    case NaN
    with \<open>a = Num \<alpha>\<close> show ?thesis by (simp add: fdiv64_def fadd64_def double_of_def)
  qed
next
  case PosInf
  with assms(2) show ?thesis
    by (cases b) (simp_all add: fdiv64_def fadd64_def double_of_def double_value_def)
next
  case NegInf
  with assms(1) show ?thesis by (simp add: double_value_def)
next
  case NaN
  then show ?thesis by (simp add: fdiv64_def fadd64_def double_of_def)
qed

text \<open>
  Claim C6, as amended. The two weights are the power heuristic \<open>mis_power2\<close> of
  \<open>bsdf_sample_count \<sqdot> bsdf_prob\<close> and \<open>env_sample_count \<sqdot> env_prob\<close> taken in the two orders
  (the BSDF technique unless the probability is the Dirac delta), \<open>q1\<^sup>2 / (q1\<^sup>2 + q2\<^sup>2)\<close>
  computed in double arithmetic. For all probabilities and sample counts, their sum is
  at most \<open>1 + 2\<^bsup>-51\<^esup>\<close> (it is 1 up to rounding, and can exceed 1), and each weight is
  at most 1 and not negative, unless it is NaN. Exchanging the roles of the two techniques
  (counts and probabilities) turns the weight of one into the weight of the other: the
  pair of weights is the same whichever technique is taken as the primary one.
\<close>

theorem mis_weights_bounded_and_symmetric:
  "mis_power2 q1 q2 = fdiv64 (fmul64 q1 q1) (fadd64 (fmul64 q1 q1) (fmul64 q2 q2))
   \<and> (\<not> feq bsdf_p dirac_delta \<longrightarrow>
      bsdf_sampling_mis_weight dirac_delta bsdf_sample_count env_sample_count bsdf_p env_p
        = mis_power2 (fmul64 (size64 bsdf_sample_count) bsdf_p)
            (fmul64 (size64 env_sample_count) env_p))
   \<and> env_sampling_mis_weight bsdf_sample_count env_sample_count env_p bsdf_p
       = mis_power2 (fmul64 (size64 env_sample_count) env_p)
           (fmul64 (size64 bsdf_sample_count) bsdf_p)
   \<and> (\<not> feq bsdf_p dirac_delta \<longrightarrow>
      \<not> fless (Num (1 + 1 / 2 ^ 51))
          (fadd
             (bsdf_sampling_mis_weight dirac_delta bsdf_sample_count env_sample_count bsdf_p env_p)
             (env_sampling_mis_weight bsdf_sample_count env_sample_count env_p bsdf_p)))
   \<and> \<not> fless (Num 1)
         (bsdf_sampling_mis_weight dirac_delta bsdf_sample_count env_sample_count bsdf_p env_p)
   \<and> not_negative
         (bsdf_sampling_mis_weight dirac_delta bsdf_sample_count env_sample_count bsdf_p env_p)
   \<and> \<not> fless (Num 1) (env_sampling_mis_weight bsdf_sample_count env_sample_count env_p bsdf_p)
   \<and> not_negative (env_sampling_mis_weight bsdf_sample_count env_sample_count env_p bsdf_p)
   \<and> env_sampling_mis_weight env_sample_count bsdf_sample_count bsdf_p env_p
       = mis_power2 (fmul64 (size64 bsdf_sample_count) bsdf_p)
           (fmul64 (size64 env_sample_count) env_p)
   \<and> (\<not> feq env_p dirac_delta \<longrightarrow>
        bsdf_sampling_mis_weight dirac_delta env_sample_count bsdf_sample_count env_p bsdf_p
          = env_sampling_mis_weight bsdf_sample_count env_sample_count env_p bsdf_p)"
proof -
  have sum: "\<not> fless (Num (1 + 1 / 2 ^ 51)) (fadd (mis_power2 a b) (mis_power2 b a))" for a b
    unfolding mis_power2_def
    by (intro weights_sum_bound double_of_double_value not_negative_square
        double_of_double_value[of "fmul a a", folded fmul64_def]
        double_of_double_value[of "fmul b b", folded fmul64_def])
  have formula: "mis_power2 q1 q2 = fdiv64 (fmul64 q1 q1) (fadd64 (fmul64 q1 q1) (fmul64 q2 q2))"
    by (simp add: mis_power2_def)
  show ?thesis
    using sum formula
    by (simp add: bsdf_sampling_mis_weight_def env_sampling_mis_weight_def
        mis_power2_at_most_one mis_power2_not_negative)
qed

text \<open>The theorem with two BSDF samples of probability 1/2 and one environment sample of
  probability 1: both weights are 1/2.\<close>

theorem mis_weights_bounded_and_symmetric_witness:
  "\<not> feq (Num (1 / 2)) (Num (- 1))
   \<and> bsdf_sampling_mis_weight (Num (- 1)) 2 1 (Num (1 / 2)) (Num 1) = Num (1 / 2)
   \<and> env_sampling_mis_weight 2 1 (Num 1) (Num (1 / 2)) = Num (1 / 2)
   \<and> fadd (bsdf_sampling_mis_weight (Num (- 1)) 2 1 (Num (1 / 2)) (Num 1))
        (env_sampling_mis_weight 2 1 (Num 1) (Num (1 / 2))) = Num 1
   \<and> \<not> fless (Num (1 + 1 / 2 ^ 51))
        (fadd (bsdf_sampling_mis_weight (Num (- 1)) 2 1 (Num (1 / 2)) (Num 1))
           (env_sampling_mis_weight 2 1 (Num 1) (Num (1 / 2))))
   \<and> \<not> fless (Num 1) (bsdf_sampling_mis_weight (Num (- 1)) 2 1 (Num (1 / 2)) (Num 1))"
  using mis_weights_bounded_and_symmetric [of "Num 1" "Num 1" "Num (1 / 2)" "Num (- 1)" 2 1 "Num 1"]
  by (simp add: mis_power2_def size64_def fmul64_def fdiv64_def fadd64_def double_of_def
      round64_values)

text \<open>Claim C6 as stated fails: with one sample each, the BSDF probability \<open>1 + 2\<^bsup>-52\<^esup>\<close>
  and the environment probability 2, the two weights are the doubles next to 1/5 and 4/5,
  both rounded up. Their sum is \<open>1 + 5 \<sqdot> 2\<^bsup>-55\<^esup>\<close>, and the sum computed in double
  arithmetic is \<open>1 + 2\<^bsup>-52\<^esup>\<close>: more than 1 either way.\<close>

theorem mis_weights_sum_exceeds_one:
  "bsdf_sampling_mis_weight (Num (- 1)) 1 1 next_above_one (Num 2)
     = Num (7205759403792797 / 36028797018963968)
   \<and> env_sampling_mis_weight 1 1 (Num 2) next_above_one
     = Num (3602879701896397 / 4503599627370496)
   \<and> fadd (bsdf_sampling_mis_weight (Num (- 1)) 1 1 next_above_one (Num 2))
        (env_sampling_mis_weight 1 1 (Num 2) next_above_one)
     = Num (36028797018963973 / 36028797018963968)
   \<and> \<not> fle (fadd (bsdf_sampling_mis_weight (Num (- 1)) 1 1 next_above_one (Num 2))
               (env_sampling_mis_weight 1 1 (Num 2) next_above_one)) (Num 1)
   \<and> fadd64 (bsdf_sampling_mis_weight (Num (- 1)) 1 1 next_above_one (Num 2))
        (env_sampling_mis_weight 1 1 (Num 2) next_above_one)
     = next_above_one
   \<and> \<not> fle (fadd64 (bsdf_sampling_mis_weight (Num (- 1)) 1 1 next_above_one (Num 2))
               (env_sampling_mis_weight 1 1 (Num 2) next_above_one)) (Num 1)"
  by (simp add: bsdf_sampling_mis_weight_def env_sampling_mis_weight_def mis_power2_def
      next_above_one_def size64_def fmul64_def fdiv64_def fadd64_def double_of_def fle_def
      round64_values round64_chain round64_sum)

lemma bsdf_sampling_step_radiance:
  "fst (bsdf_sampling_step d nb ne io (r, e)) = fst (bsdf_sampling_step d nb ne io (r, e'))"
  by (simp add: bsdf_sampling_step_def Let_def)

lemma bsdf_sampling_fold_diffuse_only:
  "fst (fold (\<lambda>i. bsdf_sampling_step d nb ne (ios i)) xs (r, e)) =
   fst (fold (\<lambda>i. bsdf_sampling_step d nb ne (ios i))
          (filter (\<lambda>i. bs_bsdf_mode (ios i) = Diffuse) xs) (r, e'))"
proof (induction xs arbitrary: r e e')
  case Nil
  then show ?case by simp
next
  case (Cons i xs)
  show ?case
  proof (cases "bs_bsdf_mode (ios i) = Diffuse")
    case True
    obtain r1 e1 where s1: "bsdf_sampling_step d nb ne (ios i) (r, e) = (r1, e1)"
      by (cases "bsdf_sampling_step d nb ne (ios i) (r, e)")
    obtain r2 e2 where s2: "bsdf_sampling_step d nb ne (ios i) (r, e') = (r2, e2)"
      by (cases "bsdf_sampling_step d nb ne (ios i) (r, e')")
    from s1 s2 bsdf_sampling_step_radiance[of d nb ne "ios i" r e e'] have "r1 = r2" by simp
    with True s1 s2 Cons.IH[of r2 e1 e2] show ?thesis by simp
  next
    case False
    then have "bsdf_sampling_step d nb ne (ios i) (r, e) = (r, e @ [Bsdf_sample])"
      by (simp add: bsdf_sampling_step_def Let_def)
    with False Cons.IH[of r "e @ [Bsdf_sample]" e'] show ?thesis by simp
  qed
qed

text \<open>
  Claim C8. In the BSDF-sampling technique, a sample whose mode is not diffuse is skipped:
  the iteration leaves the accumulated radiance as it is and makes no call after the
  sampling of the BSDF (no occlusion ray, no evaluation of the environment). The radiance
  the technique returns is therefore the one accumulated over the diffuse samples alone
  (averaged over all \<open>bsdf_sample_count\<close> samples).
\<close>

theorem non_diffuse_samples_skipped:
  "(bs_bsdf_mode io \<noteq> Diffuse \<longrightarrow>
      bsdf_sampling_step dirac_delta bsdf_sample_count env_sample_count io acc
        = (fst acc, snd acc @ [Bsdf_sample]))
   \<and> fst (compute_ibl_bsdf_sampling dirac_delta n bsdf_sample_count env_sample_count ios) =
       (let r = fst (fold (\<lambda>i. bsdf_sampling_step dirac_delta bsdf_sample_count env_sample_count (ios i))
                       (filter (\<lambda>i. bs_bsdf_mode (ios i) = Diffuse) [0..<bsdf_sample_count])
                       (replicate n (Num 0), []))
        in if 1 < bsdf_sample_count then spectrum32_div r (size32 bsdf_sample_count) else r)"
proof -
  have "fst (fold (\<lambda>i. bsdf_sampling_step dirac_delta bsdf_sample_count env_sample_count (ios i))
            [0..<bsdf_sample_count] (replicate n (Num 0), [])) =
        fst (fold (\<lambda>i. bsdf_sampling_step dirac_delta bsdf_sample_count env_sample_count (ios i))
            (filter (\<lambda>i. bs_bsdf_mode (ios i) = Diffuse) [0..<bsdf_sample_count])
            (replicate n (Num 0), []))"
    by (rule bsdf_sampling_fold_diffuse_only)
  then show ?thesis
    by (simp add: compute_ibl_bsdf_sampling_def bsdf_sampling_step_def Let_def)
qed

text \<open>The theorem on glossy samples: the radiance stays where it was, and a technique
  that draws two glossy samples returns black.\<close>

theorem non_diffuse_samples_skipped_witness:
  "bs_bsdf_mode glossy_sample \<noteq> Diffuse
   \<and> bsdf_sampling_step (Num (- 1)) 2 1 glossy_sample ([Num 3, Num 3, Num 3], [])
       = ([Num 3, Num 3, Num 3], [Bsdf_sample])
   \<and> compute_ibl_bsdf_sampling (Num (- 1)) 3 2 1 (\<lambda>i. glossy_sample)
       = ([Num 0, Num 0, Num 0], [Bsdf_sample, Bsdf_sample])"
proof -
  have "[0..<2] = [0, Suc 0]" by (simp add: numeral_2_eq_2)
  with non_diffuse_samples_skipped [of glossy_sample "Num (- 1)" 2 1 "([Num 3, Num 3, Num 3], [])"
      3 "\<lambda>i. glossy_sample"]
  show ?thesis
    by (simp add: glossy_sample_def diffuse_sample_def compute_ibl_bsdf_sampling_def
        bsdf_sampling_step_def spectrum32_div_def size32_def fdiv32_def float_of_def
        round32_values round_to_format_zero Let_def numeral_3_eq_3)
qed

section \<open>The visitor of the light tracer\<close>

lemma sqrt_25: "sqrt 25 = 5"
  by (rule real_sqrt_unique) simp_all

text \<open>
  Claim C5, as amended. For a vertex that passes both visibility tests, in
  \<open>visit_light_vertex\<close> and in \<open>visit_vertex\<close> alike, the sample is weighted with
  \<open>transmission \<times> g \<times> flux_to_radiance\<close> where
  \<open>flux_to_radiance = (dist_pixel_to_camera / cos \<theta>)\<^sup>2 \<times> rcp_film_area\<close>,
  \<open>dist_pixel_to_camera = focal_length / cos \<theta>\<close> and \<open>cos \<theta>\<close> is the absolute cosine between
  the direction from the vertex to the camera and the direction of the camera: for finite
  values and \<open>cos \<theta> \<noteq> 0\<close> that is \<open>focal_length\<^sup>2 \<times> rcp_film_area / cos\<^sup>4 \<theta>\<close>.
\<close>

theorem flux_to_radiance_factor:
  assumes "\<not> outside_image_plane (project (m_camera pv) (transform_point_to_local (m_camera pv) v))"
    and "\<not> feq (compute_transmission_between ext (m_camera_position pv) v) (Num 0)"
    and "get_point sp = v"
  shows
    "(let sample_position_ndc = project (m_camera pv) (transform_point_to_local (m_camera pv) v);
          transmission = compute_transmission_between ext (m_camera_position pv) v;
          square_distance = square_norm (vsub (m_camera_position pv) v);
          vertex_to_camera = vdiv (vsub (m_camera_position pv) v) (fsqrt square_distance);
          cos_theta = fabs (dot (vneg vertex_to_camera) (m_camera_direction pv));
          dist_pixel_to_camera = fdiv (m_focal_length pv) cos_theta;
          flux_to_radiance =
            fmul (square (fdiv dist_pixel_to_camera cos_theta)) (m_rcp_film_area pv);
          g = fdiv cos_theta square_distance;
          geometric_normal =
            (if fless (dot (get_shading_normal sp) (get_geometric_normal sp)) (Num 0)
             then vneg (get_geometric_normal sp) else get_geometric_normal sp);
          alpha' = spectrum_mul (m_alpha pv) thr
      in visit_light_vertex ext pv v =
           push_sample ext sample_position_ndc
             (spectrum_scale (m_alpha pv) (fmul (fmul transmission g) flux_to_radiance)) pv
         \<and> visit_vertex ext pv sp outgoing thr =
           push_sample ext sample_position_ndc
             (spectrum_scale
                (spectrum_mul alpha' (bsdf_evaluate ext sp geometric_normal outgoing vertex_to_camera))
                (fmul (fmul transmission g) flux_to_radiance))
             (pv\<lparr>m_alpha := alpha'\<rparr>)
         \<and> (\<forall>f c a. m_focal_length pv = Num f \<and> cos_theta = Num c \<and> c \<noteq> 0
                 \<and> m_rcp_film_area pv = Num a \<longrightarrow>
               flux_to_radiance = Num (f\<^sup>2 * a / c ^ 4)))"
  using assms
  by (auto simp: visit_light_vertex_def visit_vertex_def Let_def square_def power2_eq_square
      power4_eq_xxxx)

text \<open>The theorem at the point off the axis: \<open>cos \<theta> = 4/5\<close>, the factor is 625/256, the
  geometric term 4/125, and the sample of the light vertex has the colour 5/64.\<close>

theorem flux_to_radiance_factor_witness:
  "\<not> outside_image_plane (project (m_camera white_visitor)
        (transform_point_to_local (m_camera white_visitor) off_axis_point))
   \<and> \<not> feq (compute_transmission_between clear_air (m_camera_position white_visitor) off_axis_point)
          (Num 0)
   \<and> get_point off_axis_hit = off_axis_point
   \<and> m_samples (visit_light_vertex clear_air white_visitor off_axis_point)
       = [\<lparr>m_position = (Num (1 / 2), Num (1 / 2)),
           m_color = (Num (5 / 64), Num (5 / 64), Num (5 / 64), Num 1)\<rparr>]
   \<and> m_samples (visit_vertex clear_air white_visitor off_axis_hit (Num 0, Num 0, Num 1)
         [Num 2, Num 2, Num 2])
       = [\<lparr>m_position = (Num (1 / 2), Num (1 / 2)),
           m_color = (Num (5 / 32), Num (5 / 32), Num (5 / 32), Num 1)\<rparr>]"
  using flux_to_radiance_factor [of white_visitor off_axis_point clear_air off_axis_hit
      "[Num 2, Num 2, Num 2]" "(Num 0, Num 0, Num 1)"]
  by (simp add: white_visitor_def PathVisitor_def pinhole_def clear_air_def off_axis_point_def
      off_axis_hit_def surface_hit_def
      outside_image_plane_def fge_def push_sample_def square_norm_def fsub_def square_def
      spectrum_scale_def spectrum_mul_def sqrt_25 Let_def)

text \<open>Claim C5 as stated fails: with \<open>cos \<theta> = 4/5\<close> the factor
  \<open>dist_pixel_to_camera\<^sup>2 \<times> rcp_film_area\<close> would give the sample the colour 1/20; the
  visitor gives it 5/64.\<close>

theorem flux_to_radiance_is_not_square_distance:
  "fabs (dot (vneg (vdiv (vsub (m_camera_position white_visitor) off_axis_point)
                     (fsqrt (square_norm (vsub (m_camera_position white_visitor) off_axis_point)))))
             (m_camera_direction white_visitor)) = Num (4 / 5)
   \<and> fdiv (Num (4 / 5)) (square_norm (vsub (m_camera_position white_visitor) off_axis_point))
       = Num (4 / 125)
   \<and> compute_transmission_between clear_air (m_camera_position white_visitor) off_axis_point
       = Num 1
   \<and> spectrum_scale (m_alpha white_visitor)
        (fmul (fmul (Num 1) (Num (4 / 125)))
           (claimed_flux_to_radiance (m_focal_length white_visitor) (Num (4 / 5))
              (m_rcp_film_area white_visitor)))
       = [Num (1 / 20), Num (1 / 20), Num (1 / 20)]
   \<and> m_samples (visit_light_vertex clear_air white_visitor off_axis_point)
       = [\<lparr>m_position = (Num (1 / 2), Num (1 / 2)),
           m_color = (Num (5 / 64), Num (5 / 64), Num (5 / 64), Num 1)\<rparr>]
   \<and> m_samples (visit_light_vertex clear_air white_visitor off_axis_point)
       \<noteq> [\<lparr>m_position = (Num (1 / 2), Num (1 / 2)),
           m_color = (Num (1 / 20), Num (1 / 20), Num (1 / 20), Num 1)\<rparr>]"
  by (simp add: visit_light_vertex_def white_visitor_def PathVisitor_def pinhole_def clear_air_def
      off_axis_point_def claimed_flux_to_radiance_def
      outside_image_plane_def fge_def push_sample_def square_norm_def fsub_def square_def
      spectrum_scale_def sqrt_25 Let_def)

text \<open>
  Claim C10. When the projection of a vertex falls outside \<open>[0,1)\<^sup>2\<close> or its transmission
  toward the camera is zero, \<open>visit_vertex\<close> returns the visitor unchanged: no sample, no
  count, and the particle weight \<open>m_alpha\<close> is not multiplied by the throughput. When the
  vertex passes both tests, the weight is multiplied by the throughput and one sample is
  appended.
\<close>

theorem rejected_vertex_leaves_visitor_unchanged:
  "(let sample_position_ndc =
          project (m_camera pv) (transform_point_to_local (m_camera pv) (get_point sp));
        transmission = compute_transmission_between ext (m_camera_position pv) (get_point sp)
    in (outside_image_plane sample_position_ndc \<or> feq transmission (Num 0) \<longrightarrow>
          visit_vertex ext pv sp outgoing thr = pv)
     \<and> (\<not> outside_image_plane sample_position_ndc \<and> \<not> feq transmission (Num 0) \<longrightarrow>
          m_alpha (visit_vertex ext pv sp outgoing thr) = spectrum_mul (m_alpha pv) thr
          \<and> m_sample_count (visit_vertex ext pv sp outgoing thr) = m_sample_count pv + 1
          \<and> length (m_samples (visit_vertex ext pv sp outgoing thr)) = length (m_samples pv) + 1))"
  by (auto simp: visit_vertex_def push_sample_def Let_def)

text \<open>The theorem at an occluded vertex.\<close>

theorem rejected_vertex_leaves_visitor_unchanged_witness:
  "feq (compute_transmission_between blocked (m_camera_position white_visitor)
          (get_point off_axis_hit)) (Num 0)
   \<and> visit_vertex blocked white_visitor off_axis_hit (Num 0, Num 0, Num 1) [Num 2, Num 2, Num 2]
       = white_visitor
   \<and> m_alpha (visit_vertex blocked white_visitor off_axis_hit (Num 0, Num 0, Num 1)
         [Num 2, Num 2, Num 2]) = [Num 1, Num 1, Num 1]"
  using rejected_vertex_leaves_visitor_unchanged [of white_visitor off_axis_hit blocked
      "(Num 0, Num 0, Num 1)" "[Num 2, Num 2, Num 2]"]
  by (simp add: blocked_def clear_air_def white_visitor_def PathVisitor_def Let_def)

end
